theory Spec2Isabelle
  imports Complex_Main
begin

section \<open>JavaScript values, exceptions and the userscript storage\<close>

text \<open>
  The userscript \<^verbatim>\<open>enhanced_ip_geolocator.user.js\<close> is embedded function by function.
  A JavaScript call either returns a value or throws; both are values of \<open>outcome\<close>, and a
  \<^verbatim>\<open>try { ... } catch (e) { ... }\<close> of the source is a case distinction on the outcome of
  the block.
\<close>

datatype js_error = TypeError | SyntaxError | RangeError | StorageError

datatype 'a outcome = Returns 'a | Throws js_error

text \<open>
  A value produced by \<^verbatim>\<open>JSON.parse\<close>. A number carries the value of the parsed double
  (\<^verbatim>\<open>JSON.parse\<close> never yields NaN); an object carries its own properties.
\<close>

datatype json =
    JNull
  | JBool bool
  | JNum real
  | JStr string
  | JArr "json list"
  | JObj "(string \<times> json) list"

text \<open>The object literal \<^verbatim>\<open>data\<close> built by \<^verbatim>\<open>getGeolocation\<close>: keys in source order.\<close>

type_synonym geodata = "(string \<times> json) list"

text \<open>A history item \<^verbatim>\<open>{ ip, data, timestamp }\<close>.\<close>

record entry =
  ip :: string
  data :: geodata
  timestamp :: string

text \<open>The values the core writes to the storage: the history array, an address, \<^verbatim>\<open>null\<close>.\<close>

datatype stored = StoredHistory "entry list" | StoredString string | StoredNull

text \<open>
  The storage functions \<^verbatim>\<open>GM_getValue\<close> and \<^verbatim>\<open>GM_setValue\<close> belong to the userscript
  manager, not to the script. Each of them is either a working function, or not a function
  at all (the \<^verbatim>\<open>@grant\<close> is missing), or a function that throws. A working backend is a
  map from keys to values; \<^verbatim>\<open>GM_getValue(key)\<close> gives \<^verbatim>\<open>undefined\<close> (here \<open>None\<close>)
  for a key that was never written, and a call that throws changes nothing.
\<close>

datatype gm_function = Working | NotAFunction | Raising

record 'v gm_storage =
  GM_getValue_fn :: gm_function
  GM_setValue_fn :: gm_function
  stored_values :: "string \<rightharpoonup> 'v"

definition GM_getValue :: "'v gm_storage \<Rightarrow> string \<Rightarrow> 'v option outcome" where
  "GM_getValue env key =
     (if GM_getValue_fn env = Raising then Throws StorageError
      else Returns (stored_values env key))"

definition GM_setValue :: "'v gm_storage \<Rightarrow> string \<Rightarrow> 'v \<Rightarrow> 'v gm_storage outcome" where
  "GM_setValue env key val =
     (if GM_setValue_fn env = Raising then Throws StorageError
      else Returns (env\<lparr>stored_values := (stored_values env)(key \<mapsto> val)\<rparr>))"

subsection \<open>Configuration\<close>

definition MAX_IP_HISTORY :: nat where
  "MAX_IP_HISTORY = 5"

definition STORAGE_KEY_IP :: string where
  "STORAGE_KEY_IP = ''manusGeoLastIP''"

definition STORAGE_KEY_HISTORY :: string where
  "STORAGE_KEY_HISTORY = ''manusGeoIPHistory''"

subsection \<open>getStoredValue and setStoredValue\<close>

text \<open>The \<^verbatim>\<open>try\<close> block of \<^verbatim>\<open>getStoredValue\<close>.\<close>

definition getStoredValue_try :: "string \<Rightarrow> 'v \<Rightarrow> 'v gm_storage \<Rightarrow> 'v outcome" where
  "getStoredValue_try key defaultValue env =
     (if GM_getValue_fn env \<noteq> NotAFunction then
        (case GM_getValue env key of
           Throws e \<Rightarrow> Throws e
         | Returns st \<Rightarrow> Returns (case st of Some v \<Rightarrow> v | None \<Rightarrow> defaultValue))
      else Returns defaultValue)"

text \<open>The whole function: the \<^verbatim>\<open>catch\<close> logs and returns the default.\<close>

definition getStoredValue :: "string \<Rightarrow> 'v \<Rightarrow> 'v gm_storage \<Rightarrow> 'v outcome" where
  "getStoredValue key defaultValue env =
     (case getStoredValue_try key defaultValue env of
        Throws e \<Rightarrow> Returns defaultValue
      | Returns v \<Rightarrow> Returns v)"

text \<open>The \<^verbatim>\<open>try\<close> block of \<^verbatim>\<open>setStoredValue\<close>; the result is the storage afterwards.\<close>

definition setStoredValue_try :: "string \<Rightarrow> 'v \<Rightarrow> 'v gm_storage \<Rightarrow> 'v gm_storage outcome" where
  "setStoredValue_try key val env =
     (if GM_setValue_fn env \<noteq> NotAFunction then GM_setValue env key val
      else Returns env)"

definition setStoredValue :: "string \<Rightarrow> 'v \<Rightarrow> 'v gm_storage \<Rightarrow> 'v gm_storage outcome" where
  "setStoredValue key val env =
     (case setStoredValue_try key val env of
        Throws e \<Rightarrow> Returns env
      | Returns env' \<Rightarrow> Returns env')"

section \<open>GeolocationService: the history ledger\<close>

record GeolocationService =
  ipHistory :: "entry list"
  lastReportedIP :: "string option"

text \<open>The state \<^verbatim>\<open>updateHistory\<close> works on: the service object and the storage.\<close>

type_synonym geo_state = "GeolocationService \<times> stored gm_storage"

text \<open>\<^verbatim>\<open>Array.prototype.findIndex\<close>: the first index whose item satisfies the test; \<open>None\<close> is -1.\<close>

fun findIndex :: "('a \<Rightarrow> bool) \<Rightarrow> 'a list \<Rightarrow> nat option" where
  "findIndex P [] = None"
| "findIndex P (x # xs) = (if P x then Some 0 else map_option Suc (findIndex P xs))"

text \<open>\<^verbatim>\<open>arr.splice(i, 1)\<close>: the removed items and the array that remains.\<close>

definition splice1 :: "nat \<Rightarrow> 'a list \<Rightarrow> 'a list \<times> 'a list" where
  "splice1 i xs = (take 1 (drop i xs), take i xs @ drop (Suc i) xs)"

text \<open>
  Lines 150 to 166 of \<^verbatim>\<open>updateHistory\<close>, on the array alone. \<open>now\<close> is the value of
  \<^verbatim>\<open>new Date().toLocaleString()\<close> at the call. In the branch of a known address the
  parameter \<open>d\<close> is not used: the item keeps its \<^verbatim>\<open>data\<close>.
\<close>

definition updateHistory_array :: "string \<Rightarrow> geodata \<Rightarrow> string \<Rightarrow> entry list \<Rightarrow> entry list outcome" where
  "updateHistory_array a d now h =
     (case (case findIndex (\<lambda>item. ip item = a) h of
              Some existingIndex \<Rightarrow>
                (case splice1 existingIndex h of
                   (item # _, rest) \<Rightarrow> Returns (item\<lparr>timestamp := now\<rparr> # rest)
                 | ([], rest) \<Rightarrow> Throws TypeError)
            | None \<Rightarrow> Returns (\<lparr>ip = a, data = d, timestamp = now\<rparr> # h)) of
        Throws e \<Rightarrow> Throws e
      | Returns h1 \<Rightarrow>
          Returns (if length h1 > MAX_IP_HISTORY then butlast h1 else h1))"

definition updateHistory :: "string \<Rightarrow> geodata \<Rightarrow> string \<Rightarrow> geo_state \<Rightarrow> geo_state outcome" where
  "updateHistory a d now s =
     (case updateHistory_array a d now (ipHistory (fst s)) of
        Throws e \<Rightarrow> Throws e
      | Returns h2 \<Rightarrow>
          (case setStoredValue STORAGE_KEY_HISTORY (StoredHistory h2) (snd s) of
             Throws e \<Rightarrow> Throws e
           | Returns env1 \<Rightarrow>
               (case setStoredValue STORAGE_KEY_IP (StoredString a) env1 of
                  Throws e \<Rightarrow> Throws e
                | Returns env2 \<Rightarrow>
                    Returns ((fst s)\<lparr>ipHistory := h2, lastReportedIP := Some a\<rparr>, env2))))"

text \<open>
  The constructor: both fields are read from the storage, with their defaults. The two keys
  are written by \<^verbatim>\<open>updateHistory\<close> only, the first with an array and the second with a
  string.
\<close>

definition GeolocationService_new :: "stored gm_storage \<Rightarrow> GeolocationService" where
  "GeolocationService_new env =
     \<lparr>ipHistory =
        (case getStoredValue STORAGE_KEY_HISTORY (StoredHistory []) env of
           Returns (StoredHistory h) \<Rightarrow> h
         | _ \<Rightarrow> []),
      lastReportedIP =
        (case getStoredValue STORAGE_KEY_IP StoredNull env of
           Returns (StoredString s) \<Rightarrow> Some s
         | _ \<Rightarrow> None)\<rparr>"

text \<open>A sequence of \<^verbatim>\<open>updateHistory\<close> calls, each with its address, data and clock value.\<close>

fun updateHistory_calls :: "(string \<times> geodata \<times> string) list \<Rightarrow> geo_state \<Rightarrow> geo_state outcome" where
  "updateHistory_calls [] s = Returns s"
| "updateHistory_calls ((a, d, now) # cs) s =
     (case updateHistory a d now s of
        Throws e \<Rightarrow> Throws e
      | Returns s' \<Rightarrow> updateHistory_calls cs s')"

text \<open>The ledger invariant: at most \<open>MAX_IP_HISTORY\<close> items, no address twice.\<close>

definition ledger_inv :: "entry list \<Rightarrow> bool" where
  "ledger_inv h \<longleftrightarrow> length h \<le> MAX_IP_HISTORY \<and> distinct (map ip h)"

text \<open>A service that has recorded nothing yet, and a storage backend that works.\<close>

definition fresh_service :: GeolocationService where
  "fresh_service = \<lparr>ipHistory = [], lastReportedIP = None\<rparr>"

definition working_storage :: "stored gm_storage" where
  "working_storage =
     \<lparr>GM_getValue_fn = Working, GM_setValue_fn = Working, stored_values = Map.empty\<rparr>"

section \<open>The two regular expressions of the hook\<close>

text \<open>
  A candidate line is a \<open>string\<close>: its characters stand for the code units of the
  JavaScript string, which for a candidate line are ASCII. \<^verbatim>\<open>[0-9]\<close> is the ten ASCII
  digits, \<^verbatim>\<open>\s\<close> the white space characters (tab, line feed, vertical tab, form feed,
  carriage return, space, no-break space).
\<close>

definition is_digit :: "char \<Rightarrow> bool" where
  "is_digit c \<longleftrightarrow> 48 \<le> (of_char c :: nat) \<and> (of_char c :: nat) \<le> 57"

definition is_space :: "char \<Rightarrow> bool" where
  "is_space c \<longleftrightarrow> (of_char c :: nat) \<in> {9, 10, 11, 12, 13, 32, 160}"

text \<open>
  A backtracking matcher at one position gives every way to match a prefix of the rest of
  the input, as (matched text, remaining input), in the order in which the engine tries
  them; the engine takes the first.
\<close>

type_synonym matcher = "string \<Rightarrow> (string \<times> string) list"

text \<open>A literal string.\<close>

definition lit :: "string \<Rightarrow> matcher" where
  "lit x s = (if take (length x) s = x then [(x, drop (length x) s)] else [])"

text \<open>One character of a class.\<close>

definition one_of :: "(char \<Rightarrow> bool) \<Rightarrow> matcher" where
  "one_of P s = (case s of [] \<Rightarrow> [] | c # r \<Rightarrow> if P c then [([c], r)] else [])"

text \<open>\<^verbatim>\<open>[0-9]{1,n}\<close>, greedy: the longest run of digits first, then the shorter ones.\<close>

fun digit_prefixes :: "nat \<Rightarrow> matcher" where
  "digit_prefixes 0 s = []"
| "digit_prefixes (Suc n) [] = []"
| "digit_prefixes (Suc n) (c # s) =
     (if is_digit c then map (\<lambda>(m, r). (c # m, r)) (digit_prefixes n s) @ [([c], s)] else [])"

text \<open>Concatenation: for each way to match \<open>p\<close>, in order, each way to match \<open>q\<close> after it.\<close>

definition seq_re :: "matcher \<Rightarrow> matcher \<Rightarrow> matcher" where
  "seq_re p q s =
     concat (map (\<lambda>(m1, r1). map (\<lambda>(m2, r2). (m1 @ m2, r2)) (q r1)) (p s))"

text \<open>\<^verbatim>\<open>/typ\s(srflx)/\<close> at one position.\<close>

definition typ_regex_at :: matcher where
  "typ_regex_at = seq_re (lit ''typ'') (seq_re (one_of is_space) (lit ''srflx''))"

text \<open>\<^verbatim>\<open>(?:\.[0-9]{1,3})\<close> and \<^verbatim>\<open>/([0-9]{1,3}(?:\.[0-9]{1,3}){3})/\<close> at one position.\<close>

definition dot_group :: matcher where
  "dot_group = seq_re (lit ''.'') (digit_prefixes 3)"

definition ip_regex_at :: matcher where
  "ip_regex_at = seq_re (digit_prefixes 3) (seq_re dot_group (seq_re dot_group dot_group))"

text \<open>
  \<^verbatim>\<open>String.prototype.match\<close> with a regular expression without flags: the match at the
  leftmost position that has one; \<open>None\<close> is \<^verbatim>\<open>null\<close>. The result is the matched text,
  which for the second expression is also its group 1.
\<close>

fun regex_match :: "matcher \<Rightarrow> string \<Rightarrow> string option" where
  "regex_match re [] = (case re [] of [] \<Rightarrow> None | (m, r) # _ \<Rightarrow> Some m)"
| "regex_match re (c # s) =
     (case re (c # s) of [] \<Rightarrow> regex_match re s | (m, r) # _ \<Rightarrow> Some m)"

text \<open>
  A matcher recognises a language when, at every position, its results are exactly the ways
  to split the input into a word of the language and the rest.
\<close>

definition recognises :: "matcher \<Rightarrow> string set \<Rightarrow> bool" where
  "recognises p L \<longleftrightarrow> (\<forall>s. set (p s) = {(m, r). s = m @ r \<and> m \<in> L})"

text \<open>
  Lines 522 to 526 of the hook: both expressions are matched against the candidate line, and
  the line is acted on when both match; the address is group 1 of the second match.
\<close>

definition classify :: "string \<Rightarrow> string option" where
  "classify cand =
     (case regex_match typ_regex_at cand of
        None \<Rightarrow> None
      | Some typeMatch \<Rightarrow>
          (case regex_match ip_regex_at cand of
             None \<Rightarrow> None
           | Some ipMatch \<Rightarrow> Some ipMatch))"

text \<open>What the specification calls a marker, an IPv4-shaped token, and the first such token.\<close>

definition has_srflx_marker :: "string \<Rightarrow> bool" where
  "has_srflx_marker cand \<longleftrightarrow>
     (\<exists>pre w post. cand = pre @ ''typ'' @ [w] @ ''srflx'' @ post \<and> is_space w)"

definition digit_group :: "string \<Rightarrow> bool" where
  "digit_group g \<longleftrightarrow> g \<noteq> [] \<and> length g \<le> 3 \<and> list_all is_digit g"




section \<open>GeolocationService: getGeolocation\<close>

text \<open>JavaScript truthiness of a parsed value.\<close>

fun truthy :: "json \<Rightarrow> bool" where
  "truthy JNull = False"
| "truthy (JBool b) = b"
| "truthy (JNum x) = (x \<noteq> 0)"
| "truthy (JStr s) = (s \<noteq> [])"
| "truthy (JArr xs) = True"
| "truthy (JObj kvs) = True"

text \<open>
  Reading one of the properties the script reads (\<^verbatim>\<open>error\<close>, \<^verbatim>\<open>ip\<close>, \<^verbatim>\<open>country\<close>, ...) from a
  parsed value: \<open>None\<close> is \<^verbatim>\<open>undefined\<close>; reading from \<^verbatim>\<open>null\<close> throws; a number, a
  string, a boolean and an array have none of these properties.
\<close>

fun get_prop :: "json \<Rightarrow> string \<Rightarrow> json option outcome" where
  "get_prop JNull k = Throws TypeError"
| "get_prop (JObj kvs) k = Returns (map_of kvs k)"
| "get_prop (JBool b) k = Returns None"
| "get_prop (JNum x) k = Returns None"
| "get_prop (JStr s) k = Returns None"
| "get_prop (JArr xs) k = Returns None"

definition truthy_prop :: "json option \<Rightarrow> bool" where
  "truthy_prop p = (case p of None \<Rightarrow> False | Some v \<Rightarrow> truthy v)"

text \<open>\<^verbatim>\<open>x || 'N/A'\<close>.\<close>

definition or_NA :: "json option \<Rightarrow> json" where
  "or_NA p = (case p of None \<Rightarrow> JStr ''N/A'' | Some v \<Rightarrow> if truthy v then v else JStr ''N/A'')"

text \<open>Sequencing: a statement that throws ends the block.\<close>

definition bind_outcome :: "'a outcome \<Rightarrow> ('a \<Rightarrow> 'b outcome) \<Rightarrow> 'b outcome" where
  "bind_outcome m f = (case m of Throws e \<Rightarrow> Throws e | Returns x \<Rightarrow> f x)"

text \<open>
  What becomes of the request: \<^verbatim>\<open>onerror\<close> is called, or \<^verbatim>\<open>onload\<close> is called with a
  response whose text \<^verbatim>\<open>JSON.parse\<close> either turns into a value or rejects with a
  SyntaxError, or the call of \<^verbatim>\<open>GM_xmlhttpRequest\<close> itself throws. The call is made
  inside the executor of the promise, outside every \<^verbatim>\<open>try\<close>, so a throw there rejects
  the promise.
\<close>

datatype xhr_result = OnError | OnLoad "json outcome" | CallThrows js_error

text \<open>
  The \<^verbatim>\<open>try\<close> block of \<^verbatim>\<open>onload\<close>. \<open>regionNames_of\<close> is \<^verbatim>\<open>Intl.DisplayNames.prototype.of\<close>,
  which throws a RangeError for a code that is not a region code. The result is the value
  the promise is resolved with (\<open>None\<close> is \<^verbatim>\<open>null\<close>) and the state afterwards.
\<close>

definition getGeolocation_onload_try ::
  "(json \<Rightarrow> string outcome) \<Rightarrow> string \<Rightarrow> json outcome \<Rightarrow> string \<Rightarrow> geo_state \<Rightarrow>
     (geodata option \<times> geo_state) outcome" where
  "getGeolocation_onload_try regionNames_of a parsed now s =
     bind_outcome parsed (\<lambda>json.
     bind_outcome (get_prop json ''error'') (\<lambda>err.
       if truthy_prop err then Returns (None, s)
       else
         bind_outcome (get_prop json ''ip'') (\<lambda>p_ip.
         bind_outcome (get_prop json ''country'') (\<lambda>p_country.
         bind_outcome
           (case p_country of
              None \<Rightarrow> Returns (JStr ''N/A'')
            | Some c \<Rightarrow>
                if truthy c then bind_outcome (regionNames_of c) (\<lambda>n. Returns (JStr n))
                else Returns (JStr ''N/A'')) (\<lambda>country.
         bind_outcome (get_prop json ''region'') (\<lambda>p_region.
         bind_outcome (get_prop json ''city'') (\<lambda>p_city.
         bind_outcome (get_prop json ''loc'') (\<lambda>p_loc.
         bind_outcome (get_prop json ''org'') (\<lambda>p_org.
         bind_outcome (get_prop json ''hostname'') (\<lambda>p_hostname.
         bind_outcome (get_prop json ''bogon'') (\<lambda>p_bogon.
           let d = [(''IP Address'', or_NA p_ip),
                    (''Country'', country),
                    (''Region'', or_NA p_region),
                    (''City'', or_NA p_city),
                    (''Location'', or_NA p_loc),
                    (''ISP'', or_NA p_org),
                    (''Hostname'', or_NA p_hostname),
                    (''VPN/Proxy'',
                       if truthy_prop p_bogon then JStr ''Yes (Bogon)'' else JStr ''No'')]
           in bind_outcome (updateHistory a d now s) (\<lambda>s'. Returns (Some d, s')))))))))))))"

text \<open>
  \<^verbatim>\<open>getGeolocation\<close>, with the answer of the request and the state at the time of the answer.
  \<open>Returns\<close> is the value the promise is fulfilled with, \<open>Throws\<close> a rejected promise.
  \<open>xhr_defined\<close> is \<^verbatim>\<open>typeof GM_xmlhttpRequest === 'function'\<close>.
\<close>

definition getGeolocation ::
  "(json \<Rightarrow> string outcome) \<Rightarrow> bool \<Rightarrow> string \<Rightarrow> xhr_result \<Rightarrow> string \<Rightarrow> geo_state \<Rightarrow>
     (geodata option \<times> geo_state) outcome" where
  "getGeolocation regionNames_of xhr_defined a response now s =
     (if a = [] then Returns (None, s)
      else if \<not> xhr_defined then Returns (None, s)
      else (case response of
              OnError \<Rightarrow> Returns (None, s)
            | OnLoad parsed \<Rightarrow>
                (case getGeolocation_onload_try regionNames_of a parsed now s of
                   Throws e \<Rightarrow> Returns (None, s)
                 | Returns r \<Rightarrow> Returns r)
            | CallThrows e \<Rightarrow> Throws e))"

section \<open>WebRTCDetector: the hook on addIceCandidate\<close>

text \<open>
  The first argument of \<^verbatim>\<open>addIceCandidate\<close>: \<^verbatim>\<open>null\<close> or \<^verbatim>\<open>undefined\<close>, or a value whose
  \<^verbatim>\<open>candidate\<close> property is a string, a falsy value other than a string (missing, \<^verbatim>\<open>null\<close>),
  or a truthy value that is no string and has no \<^verbatim>\<open>match\<close> method.
\<close>

datatype js_candidate = CandString string | CandFalsy | CandTruthyNonString

datatype ice = IceNullish | IceObject js_candidate

record detector =
  geoService :: GeolocationService
  storage :: "stored gm_storage"
  detectedIps :: "string set"
  getGeolocation_calls :: "string list"

text \<open>Line 520: \<^verbatim>\<open>ice.candidate || ''\<close>, followed by the first \<^verbatim>\<open>cand.match\<close>.\<close>

definition candidate_text :: "ice \<Rightarrow> string outcome" where
  "candidate_text i =
     (case i of
        IceNullish \<Rightarrow> Throws TypeError
      | IceObject c \<Rightarrow>
          (case c of
             CandString s \<Rightarrow> Returns s
           | CandFalsy \<Rightarrow> Returns []
           | CandTruthyNonString \<Rightarrow> Throws TypeError))"

text \<open>The test of line 529.\<close>

definition is_new_ip :: "string \<Rightarrow> detector \<Rightarrow> bool" where
  "is_new_ip a st \<longleftrightarrow> Some a \<noteq> lastReportedIP (geoService st) \<and> a \<notin> detectedIps st"

text \<open>
  The \<^verbatim>\<open>try\<close> block of the hook. The call \<^verbatim>\<open>getGeolocation(ip)\<close> only starts the request;
  it is recorded in \<open>getGeolocation_calls\<close>, and its answer is a later event.
\<close>

definition addIceCandidate_try :: "ice \<Rightarrow> detector \<Rightarrow> detector outcome" where
  "addIceCandidate_try i st =
     bind_outcome (candidate_text i) (\<lambda>cand.
       case classify cand of
         None \<Rightarrow> Returns st
       | Some a \<Rightarrow>
           if is_new_ip a st
           then Returns (st\<lparr>detectedIps := insert a (detectedIps st),
                            getGeolocation_calls := getGeolocation_calls st @ [a]\<rparr>)
           else Returns st)"

text \<open>The \<^verbatim>\<open>try\<close> statement with its \<^verbatim>\<open>catch\<close>, which only logs.\<close>

definition addIceCandidate_detect :: "ice \<Rightarrow> detector \<Rightarrow> detector" where
  "addIceCandidate_detect i st =
     (case addIceCandidate_try i st of Throws e \<Rightarrow> st | Returns st' \<Rightarrow> st')"

text \<open>
  The function installed on the prototype. \<open>origAdd\<close> is the implementation it replaces: a
  function of the connection \<^verbatim>\<open>this\<close> and the arguments that returns a value and the
  connection afterwards, or throws. The hook's result is the detector afterwards and the
  outcome of \<^verbatim>\<open>origAdd.call(this, ice, ...rest)\<close>.
\<close>

definition addIceCandidate_hook ::
  "('conn \<Rightarrow> ice \<Rightarrow> 'rest \<Rightarrow> ('r \<times> 'conn) outcome) \<Rightarrow> 'conn \<Rightarrow> ice \<Rightarrow> 'rest \<Rightarrow> detector \<Rightarrow>
     detector \<times> ('r \<times> 'conn) outcome" where
  "addIceCandidate_hook origAdd this i rest st =
     (addIceCandidate_detect i st, origAdd this i rest)"

text \<open>
  The events of a session: a candidate arrives at the hook, or a request for an address is
  answered. An answer changes the service and the storage as \<^verbatim>\<open>getGeolocation\<close> says; a
  rejected promise changes nothing.
\<close>

datatype event = IceCandidate ice | Answer string xhr_result string

definition step :: "(json \<Rightarrow> string outcome) \<Rightarrow> bool \<Rightarrow> event \<Rightarrow> detector \<Rightarrow> detector" where
  "step regionNames_of xhr_defined ev st =
     (case ev of
        IceCandidate i \<Rightarrow> addIceCandidate_detect i st
      | Answer a response now \<Rightarrow>
          (case getGeolocation regionNames_of xhr_defined a response now
                  (geoService st, storage st) of
             Throws e \<Rightarrow> st
           | Returns (r, s') \<Rightarrow> st\<lparr>geoService := fst s', storage := snd s'\<rparr>))"

fun run :: "(json \<Rightarrow> string outcome) \<Rightarrow> bool \<Rightarrow> event list \<Rightarrow> detector \<Rightarrow> detector" where
  "run regionNames_of xhr_defined [] st = st"
| "run regionNames_of xhr_defined (ev # evs) st =
     run regionNames_of xhr_defined evs (step regionNames_of xhr_defined ev st)"

text \<open>A detector at the start of a session: nothing detected yet.\<close>

definition new_detector :: "GeolocationService \<Rightarrow> stored gm_storage \<Rightarrow> detector" where
  "new_detector svc env =
     \<lparr>geoService = svc, storage = env, detectedIps = {}, getGeolocation_calls = []\<rparr>"

text \<open>A table of region names for examples.\<close>

definition example_regionNames_of :: "json \<Rightarrow> string outcome" where
  "example_regionNames_of c =
     (if c = JStr ''FR'' then Returns ''France''
      else if c = JStr ''US'' then Returns ''United States''
      else Throws RangeError)"

text \<open>The hook admits a candidate when it starts a request for its address.\<close>

definition admits :: "ice \<Rightarrow> detector \<Rightarrow> bool" where
  "admits i st \<longleftrightarrow>
     getGeolocation_calls (addIceCandidate_detect i st) \<noteq> getGeolocation_calls st"

text \<open>An original \<^verbatim>\<open>addIceCandidate\<close> for examples: it counts its calls and returns its argument.\<close>

definition counting_origAdd :: "nat \<Rightarrow> ice \<Rightarrow> unit \<Rightarrow> (ice \<times> nat) outcome" where
  "counting_origAdd calls i rest = Returns (i, Suc calls)"

text \<open>A server-reflexive candidate for examples.\<close>

definition example_line :: string where
  "example_line =
     ''candidate:1 1 udp 1677729535 203.0.113.7 46154 typ srflx raddr 10.0.0.2 rport 50000''"

definition example_ice :: ice where
  "example_ice = IceObject (CandString example_line)"

text \<open>The data built from a response that has none of the fields, and the state after it.\<close>

definition unknown_data :: geodata where
  "unknown_data =
     [(''IP Address'', JStr ''N/A''), (''Country'', JStr ''N/A''), (''Region'', JStr ''N/A''),
      (''City'', JStr ''N/A''), (''Location'', JStr ''N/A''), (''ISP'', JStr ''N/A''),
      (''Hostname'', JStr ''N/A''), (''VPN/Proxy'', JStr ''No'')]"

definition recorded_unknown :: "string \<Rightarrow> string \<Rightarrow> geo_state" where
  "recorded_unknown a now =
     (\<lparr>ipHistory = [\<lparr>ip = a, data = unknown_data, timestamp = now\<rparr>],
       lastReportedIP = Some a\<rparr>,
      working_storage\<lparr>stored_values :=
        [STORAGE_KEY_HISTORY \<mapsto>
           StoredHistory [\<lparr>ip = a, data = unknown_data, timestamp = now\<rparr>],
         STORAGE_KEY_IP \<mapsto> StoredString a]\<rparr>)"

section \<open>Facts about the ledger\<close>

lemma setStoredValue_returns: "\<exists>env'. setStoredValue key val env = Returns env'"
  by (simp add: setStoredValue_def split: outcome.splits)

lemma findIndex_None: "findIndex P xs = None \<longleftrightarrow> (\<forall>x \<in> set xs. \<not> P x)"
  by (induction xs) auto

lemma findIndex_Some:
  "findIndex P xs = Some i \<Longrightarrow> i < length xs \<and> P (xs ! i) \<and> (\<forall>j < i. \<not> P (xs ! j))"
proof (induction xs arbitrary: i)
  case Nil
  then show ?case by simp
next
  case (Cons x xs)
  show ?case
  proof (cases "P x")
    case True
    with Cons.prems show ?thesis by simp
  next
    case False
    with Cons.prems obtain k where k: "findIndex P xs = Some k" "i = Suc k"
      by auto
    from Cons.IH [OF k(1)] False k(2) show ?thesis
      by (auto simp: less_Suc_eq_0_disj)
  qed
qed

lemma splice1_valid: "i < length xs \<Longrightarrow> splice1 i xs = ([xs ! i], take i xs @ drop (Suc i) xs)"
  by (simp add: splice1_def take_Suc_conv_app_nth Cons_nth_drop_Suc [symmetric])

lemma updateHistory_array_new:
  assumes "\<forall>x \<in> set h. ip x \<noteq> a"
  shows "updateHistory_array a d now h =
           Returns (\<lparr>ip = a, data = d, timestamp = now\<rparr> #
                    (if length h < MAX_IP_HISTORY then h else butlast h))"
proof -
  from assms have "findIndex (\<lambda>item. ip item = a) h = None"
    by (simp add: findIndex_None)
  then show ?thesis
    by (cases h) (auto simp: updateHistory_array_def MAX_IP_HISTORY_def)
qed

lemma remove_at_distinct:
  assumes "distinct (map f xs)" "i < length xs"
  shows "take i xs @ drop (Suc i) xs = filter (\<lambda>x. f x \<noteq> f (xs ! i)) xs"
  using assms
proof (induction xs arbitrary: i)
  case Nil
  then show ?case by simp
next
  case (Cons x xs)
  show ?case
  proof (cases i)
    case 0
    from Cons.prems have "\<forall>y \<in> set xs. f y \<noteq> f x" by (auto simp: image_iff)
    then have "filter (\<lambda>y. f y \<noteq> f x) xs = xs" by (simp add: filter_id_conv)
    with 0 show ?thesis by simp
  next
    case (Suc k)
    with Cons.prems have k: "k < length xs" "distinct (map f xs)" by auto
    from Cons.prems Suc have "f x \<noteq> f (xs ! k)" by auto
    with Cons.IH [OF k(2) k(1)] Suc show ?thesis by simp
  qed
qed

lemma updateHistory_array_known:
  assumes "findIndex (\<lambda>item. ip item = a) h = Some i"
  shows "updateHistory_array a d now h =
           Returns (let h1 = (h ! i)\<lparr>timestamp := now\<rparr> # (take i h @ drop (Suc i) h)
                    in if length h1 > MAX_IP_HISTORY then butlast h1 else h1)"
proof -
  from findIndex_Some [OF assms] have "i < length h" by simp
  then show ?thesis
    using assms by (simp add: updateHistory_array_def splice1_valid Let_def)
qed

lemma updateHistory_array_returns: "\<exists>h'. updateHistory_array a d now h = Returns h'"
proof (cases "findIndex (\<lambda>item. ip item = a) h")
  case None
  then show ?thesis by (simp add: updateHistory_array_def)
next
  case (Some i)
  then show ?thesis by (simp add: updateHistory_array_known)
qed

lemma updateHistory_state:
  assumes "updateHistory_array a d now (ipHistory svc) = Returns h'"
  shows "\<exists>env'. updateHistory a d now (svc, env) =
           Returns (svc\<lparr>ipHistory := h', lastReportedIP := Some a\<rparr>, env')"
proof -
  obtain env1 where e1: "setStoredValue STORAGE_KEY_HISTORY (StoredHistory h') env = Returns env1"
    using setStoredValue_returns [of STORAGE_KEY_HISTORY "StoredHistory h'" env] by auto
  obtain env2 where e2: "setStoredValue STORAGE_KEY_IP (StoredString a) env1 = Returns env2"
    using setStoredValue_returns [of STORAGE_KEY_IP "StoredString a" env1] by auto
  show ?thesis
    by (simp add: updateHistory_def assms e1 e2)
qed

lemma updateHistory_array_inv:
  assumes inv: "ledger_inv h" and res: "updateHistory_array a d now h = Returns h'"
  shows "ledger_inv h' \<and> h' \<noteq> [] \<and> ip (hd h') = a"
proof (cases "findIndex (\<lambda>item. ip item = a) h")
  case None
  then have fresh: "\<forall>x \<in> set h. ip x \<noteq> a"
    by (simp add: findIndex_None)
  have h': "h' = \<lparr>ip = a, data = d, timestamp = now\<rparr> #
                  (if length h < MAX_IP_HISTORY then h else butlast h)"
    using res updateHistory_array_new [OF fresh] by simp
  have "a \<notin> set (map ip (butlast h))"
    using fresh by (auto dest: in_set_butlastD)
  moreover have "distinct (map ip (butlast h))"
    using inv by (simp add: ledger_inv_def map_butlast distinct_butlast)
  moreover have "a \<notin> set (map ip h)"
    using fresh by auto
  ultimately show ?thesis
    using inv h' by (auto simp: ledger_inv_def MAX_IP_HISTORY_def)
next
  case (Some i)
  from findIndex_Some [OF Some] have i: "i < length h" "ip (h ! i) = a"
    by simp_all
  have rest: "take i h @ drop (Suc i) h = filter (\<lambda>x. ip x \<noteq> a) h"
    using remove_at_distinct [of ip h i] inv i by (simp add: ledger_inv_def)
  have len: "length (take i h @ drop (Suc i) h) = length h - 1"
    using i by simp
  have "length ((h ! i)\<lparr>timestamp := now\<rparr> # (take i h @ drop (Suc i) h)) \<le> MAX_IP_HISTORY"
    using inv i len by (auto simp: ledger_inv_def)
  then have h': "h' = (h ! i)\<lparr>timestamp := now\<rparr> # filter (\<lambda>x. ip x \<noteq> a) h"
    using res updateHistory_array_known [OF Some, of d now] rest
    by (simp add: Let_def del: length_append length_take length_drop)
  have "distinct (map ip (filter (\<lambda>x. ip x \<noteq> a) h))"
    using inv by (simp add: ledger_inv_def distinct_map_filter)
  moreover have "length (filter (\<lambda>x. ip x \<noteq> a) h) = length h - 1"
    using rest len by simp
  ultimately show ?thesis
    using inv i h' by (auto simp: ledger_inv_def)
qed

lemma updateHistory_inv:
  assumes "ledger_inv (ipHistory svc)"
  shows "\<exists>svc' env'. updateHistory a d now (svc, env) = Returns (svc', env') \<and>
           ledger_inv (ipHistory svc') \<and> ipHistory svc' \<noteq> [] \<and>
           ip (hd (ipHistory svc')) = a \<and> lastReportedIP svc' = Some a"
proof -
  obtain h' where h': "updateHistory_array a d now (ipHistory svc) = Returns h'"
    using updateHistory_array_returns by blast
  obtain env' where "updateHistory a d now (svc, env) =
      Returns (svc\<lparr>ipHistory := h', lastReportedIP := Some a\<rparr>, env')"
    using updateHistory_state [OF h'] by blast
  then show ?thesis
    using updateHistory_array_inv [OF assms h'] by simp
qed

lemma updateHistory_calls_append:
  "updateHistory_calls (cs @ ds) s =
     (case updateHistory_calls cs s of
        Throws e \<Rightarrow> Throws e
      | Returns s' \<Rightarrow> updateHistory_calls ds s')"
  by (induction cs s rule: updateHistory_calls.induct) (auto split: outcome.splits)

lemma updateHistory_calls_inv:
  "ledger_inv (ipHistory svc) \<Longrightarrow>
     \<exists>svc' env'. updateHistory_calls cs (svc, env) = Returns (svc', env') \<and>
       ledger_inv (ipHistory svc')"
proof (induction cs arbitrary: svc env)
  case Nil
  then show ?case by simp
next
  case (Cons c cs)
  obtain a d now where c: "c = (a, d, now)"
    by (cases c) auto
  from updateHistory_inv [OF Cons.prems, of a d now env]
  obtain svc1 env1 where s1: "updateHistory a d now (svc, env) = Returns (svc1, env1)"
    and inv1: "ledger_inv (ipHistory svc1)"
    by blast
  from Cons.IH [OF inv1, of env1] show ?case
    by (simp add: c s1)
qed

section \<open>The ledger invariant\<close>

text \<open>
  Claim C3. Start from a service whose ledger satisfies the invariant (the empty ledger of a
  first run does), and let any sequence of \<^verbatim>\<open>updateHistory\<close> calls run, followed by a call
  for address \<open>a\<close>. Every call returns, and after the last one the ledger has at most 5
  items, no address twice, and the item at position 0 is the one of \<open>a\<close>.
\<close>

theorem ledger_invariant_after_every_record:
  assumes "ledger_inv (ipHistory svc)"
  shows "\<exists>svc' env'.
           updateHistory_calls (cs @ [(a, d, now)]) (svc, env) = Returns (svc', env') \<and>
           length (ipHistory svc') \<le> 5 \<and>
           distinct (map ip (ipHistory svc')) \<and>
           ipHistory svc' \<noteq> [] \<and> ip (ipHistory svc' ! 0) = a"
proof -
  obtain svc1 env1 where s1: "updateHistory_calls cs (svc, env) = Returns (svc1, env1)"
    and inv1: "ledger_inv (ipHistory svc1)"
    using updateHistory_calls_inv [OF assms] by blast
  obtain svc2 env2 where s2: "updateHistory a d now (svc1, env1) = Returns (svc2, env2)"
    and inv2: "ledger_inv (ipHistory svc2)" "ipHistory svc2 \<noteq> []" "ip (hd (ipHistory svc2)) = a"
    using updateHistory_inv [OF inv1] by blast
  have "updateHistory_calls (cs @ [(a, d, now)]) (svc, env) = Returns (svc2, env2)"
    by (simp add: updateHistory_calls_append s1 s2)
  then show ?thesis
    using inv2 by (auto simp: ledger_inv_def MAX_IP_HISTORY_def hd_conv_nth)
qed

theorem ledger_invariant_after_every_record_witness:
  "ledger_inv (ipHistory fresh_service) \<and>
   (\<exists>svc' env'.
      updateHistory_calls ([(''198.51.100.9'', [], ''t1'')] @ [(''203.0.113.7'', [], ''t2'')])
        (fresh_service, working_storage) = Returns (svc', env') \<and>
      length (ipHistory svc') \<le> 5 \<and>
      distinct (map ip (ipHistory svc')) \<and>
      ipHistory svc' \<noteq> [] \<and> ip (ipHistory svc' ! 0) = ''203.0.113.7'')"
proof -
  have h: "ledger_inv (ipHistory fresh_service)"
    by (simp add: ledger_inv_def fresh_service_def)
  from ledger_invariant_after_every_record [OF h] h show ?thesis
    by blast
qed

section \<open>Recording a new address\<close>

lemma updateHistory_new:
  assumes "\<forall>x \<in> set (ipHistory svc). ip x \<noteq> a"
  shows "\<exists>env'. updateHistory a d now (svc, env) =
           Returns (svc\<lparr>ipHistory := \<lparr>ip = a, data = d, timestamp = now\<rparr> #
                      (if length (ipHistory svc) < MAX_IP_HISTORY then ipHistory svc
                       else butlast (ipHistory svc)),
                    lastReportedIP := Some a\<rparr>, env')"
  using updateHistory_state [OF updateHistory_array_new [OF assms]] by simp

lemma six_distinct_records:
  assumes dist: "distinct [a1, a2, a3, a4, a5, a6]"
  shows "\<exists>svc' env'.
           updateHistory_calls
             [(a1, d1, t1), (a2, d2, t2), (a3, d3, t3), (a4, d4, t4), (a5, d5, t5), (a6, d6, t6)]
             (svc\<lparr>ipHistory := []\<rparr>, env) = Returns (svc', env') \<and>
           ipHistory svc' =
             [\<lparr>ip = a6, data = d6, timestamp = t6\<rparr>, \<lparr>ip = a5, data = d5, timestamp = t5\<rparr>,
              \<lparr>ip = a4, data = d4, timestamp = t4\<rparr>, \<lparr>ip = a3, data = d3, timestamp = t3\<rparr>,
              \<lparr>ip = a2, data = d2, timestamp = t2\<rparr>]"
proof -
  let ?s0 = "svc\<lparr>ipHistory := []\<rparr>"
  obtain s1 env1 where r1: "updateHistory a1 d1 t1 (?s0, env) = Returns (s1, env1)"
    and h1: "ipHistory s1 = [\<lparr>ip = a1, data = d1, timestamp = t1\<rparr>]"
    using updateHistory_new [of ?s0 a1 d1 t1 env]
    by (auto simp: MAX_IP_HISTORY_def)
  obtain s2 env2 where r2: "updateHistory a2 d2 t2 (s1, env1) = Returns (s2, env2)"
    and h2: "ipHistory s2 = \<lparr>ip = a2, data = d2, timestamp = t2\<rparr> # ipHistory s1"
    using updateHistory_new [of s1 a2 d2 t2 env1] dist h1
    by (auto simp: MAX_IP_HISTORY_def)
  obtain s3 env3 where r3: "updateHistory a3 d3 t3 (s2, env2) = Returns (s3, env3)"
    and h3: "ipHistory s3 = \<lparr>ip = a3, data = d3, timestamp = t3\<rparr> # ipHistory s2"
    using updateHistory_new [of s2 a3 d3 t3 env2] dist h1 h2
    by (auto simp: MAX_IP_HISTORY_def)
  obtain s4 env4 where r4: "updateHistory a4 d4 t4 (s3, env3) = Returns (s4, env4)"
    and h4: "ipHistory s4 = \<lparr>ip = a4, data = d4, timestamp = t4\<rparr> # ipHistory s3"
    using updateHistory_new [of s3 a4 d4 t4 env3] dist h1 h2 h3
    by (auto simp: MAX_IP_HISTORY_def)
  obtain s5 env5 where r5: "updateHistory a5 d5 t5 (s4, env4) = Returns (s5, env5)"
    and h5: "ipHistory s5 = \<lparr>ip = a5, data = d5, timestamp = t5\<rparr> # ipHistory s4"
    using updateHistory_new [of s4 a5 d5 t5 env4] dist h1 h2 h3 h4
    by (auto simp: MAX_IP_HISTORY_def)
  obtain s6 env6 where r6: "updateHistory a6 d6 t6 (s5, env5) = Returns (s6, env6)"
    and h6: "ipHistory s6 = \<lparr>ip = a6, data = d6, timestamp = t6\<rparr> # butlast (ipHistory s5)"
    using updateHistory_new [of s5 a6 d6 t6 env5] dist h1 h2 h3 h4 h5
    by (auto simp: MAX_IP_HISTORY_def)
  have "updateHistory_calls
          [(a1, d1, t1), (a2, d2, t2), (a3, d3, t3), (a4, d4, t4), (a5, d5, t5), (a6, d6, t6)]
          (?s0, env) = Returns (s6, env6)"
    by (simp add: r1 r2 r3 r4 r5 r6)
  moreover have "ipHistory s6 =
      [\<lparr>ip = a6, data = d6, timestamp = t6\<rparr>, \<lparr>ip = a5, data = d5, timestamp = t5\<rparr>,
       \<lparr>ip = a4, data = d4, timestamp = t4\<rparr>, \<lparr>ip = a3, data = d3, timestamp = t3\<rparr>,
       \<lparr>ip = a2, data = d2, timestamp = t2\<rparr>]"
    by (simp add: h1 h2 h3 h4 h5 h6)
  ultimately show ?thesis by blast
qed

text \<open>
  Claim C5. An address that no item of the ledger carries gets a new item at position 0,
  with the data and time of the call; when the array then has more than 5 items its last
  item is dropped. Six calls with six distinct addresses, from an empty ledger, leave the
  items of the last five calls, the latest first.
\<close>

theorem record_new_address_inserts_and_evicts:
  "(a \<notin> set (map ip (ipHistory svc)) \<longrightarrow>
      (\<exists>env'. updateHistory a d now (svc, env) =
         Returns (svc\<lparr>ipHistory := \<lparr>ip = a, data = d, timestamp = now\<rparr> #
                    (if length (ipHistory svc) < 5 then ipHistory svc
                     else butlast (ipHistory svc)),
                  lastReportedIP := Some a\<rparr>, env'))) \<and>
   (distinct [a1, a2, a3, a4, a5, a6] \<longrightarrow>
      (\<exists>svc' env'.
         updateHistory_calls
           [(a1, d1, t1), (a2, d2, t2), (a3, d3, t3), (a4, d4, t4), (a5, d5, t5), (a6, d6, t6)]
           (svc\<lparr>ipHistory := []\<rparr>, env) = Returns (svc', env') \<and>
         ipHistory svc' =
           [\<lparr>ip = a6, data = d6, timestamp = t6\<rparr>, \<lparr>ip = a5, data = d5, timestamp = t5\<rparr>,
            \<lparr>ip = a4, data = d4, timestamp = t4\<rparr>, \<lparr>ip = a3, data = d3, timestamp = t3\<rparr>,
            \<lparr>ip = a2, data = d2, timestamp = t2\<rparr>]))"
proof (intro conjI impI)
  assume "a \<notin> set (map ip (ipHistory svc))"
  then have "\<forall>x \<in> set (ipHistory svc). ip x \<noteq> a" by auto
  from updateHistory_new [OF this, of d now env]
  show "\<exists>env'. updateHistory a d now (svc, env) =
         Returns (svc\<lparr>ipHistory := \<lparr>ip = a, data = d, timestamp = now\<rparr> #
                    (if length (ipHistory svc) < 5 then ipHistory svc
                     else butlast (ipHistory svc)),
                  lastReportedIP := Some a\<rparr>, env')"
    by (simp add: MAX_IP_HISTORY_def)
next
  assume "distinct [a1, a2, a3, a4, a5, a6]"
  then show "\<exists>svc' env'.
         updateHistory_calls
           [(a1, d1, t1), (a2, d2, t2), (a3, d3, t3), (a4, d4, t4), (a5, d5, t5), (a6, d6, t6)]
           (svc\<lparr>ipHistory := []\<rparr>, env) = Returns (svc', env') \<and>
         ipHistory svc' =
           [\<lparr>ip = a6, data = d6, timestamp = t6\<rparr>, \<lparr>ip = a5, data = d5, timestamp = t5\<rparr>,
            \<lparr>ip = a4, data = d4, timestamp = t4\<rparr>, \<lparr>ip = a3, data = d3, timestamp = t3\<rparr>,
            \<lparr>ip = a2, data = d2, timestamp = t2\<rparr>]"
    by (rule six_distinct_records)
qed

theorem record_new_address_inserts_and_evicts_witness:
  "''203.0.113.7'' \<notin> set (map ip (ipHistory fresh_service)) \<and>
   (\<exists>env'. updateHistory ''203.0.113.7'' [] ''t0'' (fresh_service, working_storage) =
      Returns (fresh_service\<lparr>ipHistory := [\<lparr>ip = ''203.0.113.7'', data = [], timestamp = ''t0''\<rparr>],
                 lastReportedIP := Some ''203.0.113.7''\<rparr>, env')) \<and>
   distinct [''192.0.2.1'', ''192.0.2.2'', ''192.0.2.3'', ''192.0.2.4'', ''192.0.2.5'', ''192.0.2.6''] \<and>
   (\<exists>svc' env'.
      updateHistory_calls
        [(''192.0.2.1'', [], ''t1''), (''192.0.2.2'', [], ''t2''), (''192.0.2.3'', [], ''t3''),
         (''192.0.2.4'', [], ''t4''), (''192.0.2.5'', [], ''t5''), (''192.0.2.6'', [], ''t6'')]
        (fresh_service\<lparr>ipHistory := []\<rparr>, working_storage) = Returns (svc', env') \<and>
      ipHistory svc' =
        [\<lparr>ip = ''192.0.2.6'', data = [], timestamp = ''t6''\<rparr>,
         \<lparr>ip = ''192.0.2.5'', data = [], timestamp = ''t5''\<rparr>,
         \<lparr>ip = ''192.0.2.4'', data = [], timestamp = ''t4''\<rparr>,
         \<lparr>ip = ''192.0.2.3'', data = [], timestamp = ''t3''\<rparr>,
         \<lparr>ip = ''192.0.2.2'', data = [], timestamp = ''t2''\<rparr>])"
  using record_new_address_inserts_and_evicts
    [of "''203.0.113.7''" fresh_service "[]" "''t0''" working_storage
        "''192.0.2.1''" "''192.0.2.2''" "''192.0.2.3''" "''192.0.2.4''" "''192.0.2.5''" "''192.0.2.6''"
        "[]" "''t1''" "[]" "''t2''" "[]" "''t3''" "[]" "''t4''" "[]" "''t5''" "[]" "''t6''"]
  by (simp add: fresh_service_def)

section \<open>Recording a known address\<close>

lemma findIndex_of_member:
  assumes "distinct (map f xs)" "e \<in> set xs"
  shows "\<exists>i. findIndex (\<lambda>x. f x = f e) xs = Some i \<and> xs ! i = e"
proof -
  from assms(2) have "findIndex (\<lambda>x. f x = f e) xs \<noteq> None"
    by (auto simp: findIndex_None)
  then obtain i where i: "findIndex (\<lambda>x. f x = f e) xs = Some i"
    by auto
  from findIndex_Some [OF i] have "i < length xs" "f (xs ! i) = f e"
    by simp_all
  moreover from assms(1) have "inj_on f (set xs)"
    by (simp add: distinct_map)
  ultimately have "xs ! i = e"
    using assms(2) by (auto dest: inj_onD)
  with i show ?thesis by blast
qed

lemma updateHistory_known:
  assumes inv: "ledger_inv (ipHistory svc)" and mem: "e \<in> set (ipHistory svc)"
    and a: "ip e = a"
  shows "\<exists>env'. updateHistory a d now (svc, env) =
           Returns (svc\<lparr>ipHistory := e\<lparr>timestamp := now\<rparr> #
                      filter (\<lambda>x. ip x \<noteq> a) (ipHistory svc),
                    lastReportedIP := Some a\<rparr>, env')"
proof -
  let ?h = "ipHistory svc"
  from inv have dist: "distinct (map ip ?h)"
    by (simp add: ledger_inv_def)
  obtain i where i: "findIndex (\<lambda>item. ip item = a) ?h = Some i" and e: "?h ! i = e"
    using findIndex_of_member [OF dist mem] a by auto
  from findIndex_Some [OF i] have lt: "i < length ?h"
    by simp
  have rest: "take i ?h @ drop (Suc i) ?h = filter (\<lambda>x. ip x \<noteq> a) ?h"
    using remove_at_distinct [OF dist lt] e a by simp
  have "length (filter (\<lambda>x. ip x \<noteq> a) ?h) = length ?h - 1"
    using lt by (simp add: rest [symmetric])
  then have "length (e\<lparr>timestamp := now\<rparr> # filter (\<lambda>x. ip x \<noteq> a) ?h) \<le> MAX_IP_HISTORY"
    using inv lt by (auto simp: ledger_inv_def)
  then have "updateHistory_array a d now ?h =
      Returns (e\<lparr>timestamp := now\<rparr> # filter (\<lambda>x. ip x \<noteq> a) ?h)"
    using updateHistory_array_known [OF i, of d now] rest e
    by (simp add: Let_def del: length_append length_take length_drop)
  from updateHistory_state [OF this] show ?thesis .
qed

lemma record_a_b_a:
  assumes "a \<noteq> b"
  shows "\<exists>svc' env'.
           updateHistory_calls [(a, d1, t1), (b, d2, t2), (a, d3, t3)]
             (svc\<lparr>ipHistory := []\<rparr>, env) = Returns (svc', env') \<and>
           ipHistory svc' =
             [\<lparr>ip = a, data = d1, timestamp = t3\<rparr>, \<lparr>ip = b, data = d2, timestamp = t2\<rparr>]"
proof -
  let ?s0 = "svc\<lparr>ipHistory := []\<rparr>"
  let ?ea = "\<lparr>ip = a, data = d1, timestamp = t1\<rparr>"
  let ?eb = "\<lparr>ip = b, data = d2, timestamp = t2\<rparr>"
  obtain s1 env1 where r1: "updateHistory a d1 t1 (?s0, env) = Returns (s1, env1)"
    and h1: "ipHistory s1 = [?ea]"
    using updateHistory_new [of ?s0 a d1 t1 env]
    by (auto simp: MAX_IP_HISTORY_def)
  obtain s2 env2 where r2: "updateHistory b d2 t2 (s1, env1) = Returns (s2, env2)"
    and h2: "ipHistory s2 = [?eb, ?ea]"
    using updateHistory_new [of s1 b d2 t2 env1] assms h1
    by (auto simp: MAX_IP_HISTORY_def)
  have inv2: "ledger_inv (ipHistory s2)"
    using assms by (simp add: h2 ledger_inv_def MAX_IP_HISTORY_def)
  have mem: "?ea \<in> set (ipHistory s2)"
    by (simp add: h2)
  obtain s3 env3 where r3: "updateHistory a d3 t3 (s2, env2) = Returns (s3, env3)"
    and h3: "ipHistory s3 = ?ea\<lparr>timestamp := t3\<rparr> # filter (\<lambda>x. ip x \<noteq> a) (ipHistory s2)"
    using updateHistory_known [OF inv2 mem, of a d3 t3 env2]
    by auto
  have "updateHistory_calls [(a, d1, t1), (b, d2, t2), (a, d3, t3)] (?s0, env) = Returns (s3, env3)"
    by (simp add: r1 r2 r3)
  moreover have "ipHistory s3 =
      [\<lparr>ip = a, data = d1, timestamp = t3\<rparr>, \<lparr>ip = b, data = d2, timestamp = t2\<rparr>]"
    using assms by (simp add: h3 h2)
  ultimately show ?thesis by blast
qed

text \<open>
  Claim C1, as the code has it. For an address that an item of the ledger carries (the
  ledger satisfying its invariant), \<^verbatim>\<open>updateHistory\<close> takes that item out, sets its
  timestamp to the time of the call, leaves its \<^verbatim>\<open>data\<close> as first stored (the data of the
  call is dropped), and puts it at position 0 before the other items, whose order is kept.
  After calls for A, B and A again the ledger is [A, B], A with the third timestamp and the
  first data.
\<close>

theorem record_known_address_moves_to_front:
  "(ledger_inv (ipHistory svc) \<and> e \<in> set (ipHistory svc) \<and> ip e = a \<longrightarrow>
      (\<exists>env'. updateHistory a d now (svc, env) =
         Returns (svc\<lparr>ipHistory := \<lparr>ip = a, data = data e, timestamp = now\<rparr> #
                    filter (\<lambda>x. ip x \<noteq> a) (ipHistory svc),
                  lastReportedIP := Some a\<rparr>, env'))) \<and>
   (a \<noteq> b \<longrightarrow>
      (\<exists>svc' env'.
         updateHistory_calls [(a, d1, t1), (b, d2, t2), (a, d3, t3)]
           (svc\<lparr>ipHistory := []\<rparr>, env) = Returns (svc', env') \<and>
         ipHistory svc' =
           [\<lparr>ip = a, data = d1, timestamp = t3\<rparr>, \<lparr>ip = b, data = d2, timestamp = t2\<rparr>]))"
proof (intro conjI impI)
  assume h: "ledger_inv (ipHistory svc) \<and> e \<in> set (ipHistory svc) \<and> ip e = a"
  then have "e\<lparr>timestamp := now\<rparr> = \<lparr>ip = a, data = data e, timestamp = now\<rparr>"
    by (cases e) auto
  with updateHistory_known [of svc e a d now env] h
  show "\<exists>env'. updateHistory a d now (svc, env) =
         Returns (svc\<lparr>ipHistory := \<lparr>ip = a, data = data e, timestamp = now\<rparr> #
                    filter (\<lambda>x. ip x \<noteq> a) (ipHistory svc),
                  lastReportedIP := Some a\<rparr>, env')"
    by simp
next
  assume "a \<noteq> b"
  then show "\<exists>svc' env'.
         updateHistory_calls [(a, d1, t1), (b, d2, t2), (a, d3, t3)]
           (svc\<lparr>ipHistory := []\<rparr>, env) = Returns (svc', env') \<and>
         ipHistory svc' =
           [\<lparr>ip = a, data = d1, timestamp = t3\<rparr>, \<lparr>ip = b, data = d2, timestamp = t2\<rparr>]"
    by (rule record_a_b_a)
qed

theorem record_known_address_moves_to_front_witness:
  "(ledger_inv [\<lparr>ip = ''198.51.100.9'', data = [], timestamp = ''t2''\<rparr>,
                \<lparr>ip = ''203.0.113.7'', data = [(''City'', JStr ''Paris'')], timestamp = ''t1''\<rparr>] \<and>
    ''203.0.113.7'' \<noteq> ''198.51.100.9'') \<and>
   (\<exists>env'. updateHistory ''203.0.113.7'' [(''City'', JStr ''Lyon'')] ''t3''
        (\<lparr>ipHistory = [\<lparr>ip = ''198.51.100.9'', data = [], timestamp = ''t2''\<rparr>,
                       \<lparr>ip = ''203.0.113.7'', data = [(''City'', JStr ''Paris'')], timestamp = ''t1''\<rparr>],
          lastReportedIP = Some ''198.51.100.9''\<rparr>, working_storage) =
      Returns (\<lparr>ipHistory =
                  [\<lparr>ip = ''203.0.113.7'', data = [(''City'', JStr ''Paris'')], timestamp = ''t3''\<rparr>,
                   \<lparr>ip = ''198.51.100.9'', data = [], timestamp = ''t2''\<rparr>],
                lastReportedIP = Some ''203.0.113.7''\<rparr>, env')) \<and>
   (\<exists>svc' env'.
      updateHistory_calls
        [(''203.0.113.7'', [(''City'', JStr ''Paris'')], ''t1''), (''198.51.100.9'', [], ''t2''),
         (''203.0.113.7'', [(''City'', JStr ''Lyon'')], ''t3'')]
        (\<lparr>ipHistory = [], lastReportedIP = Some ''198.51.100.9''\<rparr>, working_storage) =
        Returns (svc', env') \<and>
      ipHistory svc' =
        [\<lparr>ip = ''203.0.113.7'', data = [(''City'', JStr ''Paris'')], timestamp = ''t3''\<rparr>,
         \<lparr>ip = ''198.51.100.9'', data = [], timestamp = ''t2''\<rparr>])"
proof -
  have inv: "ledger_inv [\<lparr>ip = ''198.51.100.9'', data = [], timestamp = ''t2''\<rparr>,
      \<lparr>ip = ''203.0.113.7'', data = [(''City'', JStr ''Paris'')], timestamp = ''t1''\<rparr>]"
    by (simp add: ledger_inv_def MAX_IP_HISTORY_def)
  have ne: "''203.0.113.7'' \<noteq> ''198.51.100.9''"
    by simp
  show ?thesis
    using inv ne
      record_known_address_moves_to_front
        [of "\<lparr>ipHistory = [\<lparr>ip = ''198.51.100.9'', data = [], timestamp = ''t2''\<rparr>,
                \<lparr>ip = ''203.0.113.7'', data = [(''City'', JStr ''Paris'')], timestamp = ''t1''\<rparr>],
              lastReportedIP = Some ''198.51.100.9''\<rparr>"
            "\<lparr>ip = ''203.0.113.7'', data = [(''City'', JStr ''Paris'')], timestamp = ''t1''\<rparr>"
            "''203.0.113.7''" "[(''City'', JStr ''Lyon'')]" "''t3''" working_storage
            "''198.51.100.9''" "[(''City'', JStr ''Paris'')]" "''t1''" "[]" "''t2''"
            "[(''City'', JStr ''Lyon'')]" "''t3''"]
    by simp
qed

text \<open>
  The claim as written fails on the data: a second call for the same address, with other
  data, leaves the data of the first call in the item.
\<close>

theorem record_known_address_metadata_counterexample:
  "updateHistory_calls
     [(''203.0.113.7'', [(''City'', JStr ''Paris'')], ''t1''),
      (''203.0.113.7'', [(''City'', JStr ''Lyon'')], ''t2'')]
     (fresh_service, working_storage) =
   Returns
     (\<lparr>ipHistory =
         [\<lparr>ip = ''203.0.113.7'', data = [(''City'', JStr ''Paris'')], timestamp = ''t2''\<rparr>],
       lastReportedIP = Some ''203.0.113.7''\<rparr>,
      working_storage\<lparr>stored_values :=
        [STORAGE_KEY_HISTORY \<mapsto>
           StoredHistory
             [\<lparr>ip = ''203.0.113.7'', data = [(''City'', JStr ''Paris'')], timestamp = ''t2''\<rparr>],
         STORAGE_KEY_IP \<mapsto> StoredString ''203.0.113.7'']\<rparr>) \<and>
   [(''City'', JStr ''Paris'')] \<noteq> [(''City'', JStr ''Lyon'')]"
  by (simp add: updateHistory_def updateHistory_array_def splice1_def STORAGE_KEY_IP_def
      STORAGE_KEY_HISTORY_def setStoredValue_def setStoredValue_try_def GM_setValue_def
      fresh_service_def working_storage_def MAX_IP_HISTORY_def fun_upd_twist)

section \<open>The stored values\<close>

lemma getStoredValue_returns: "\<exists>x. getStoredValue k d env = Returns x"
  by (simp add: getStoredValue_def split: outcome.splits)

text \<open>
  Claim C9. With both storage functions working, \<^verbatim>\<open>setStoredValue(k, v)\<close> followed by
  \<^verbatim>\<open>getStoredValue(k, d)\<close> gives \<open>v\<close>. When \<^verbatim>\<open>GM_getValue\<close> throws, \<^verbatim>\<open>getStoredValue\<close>
  gives the default; when \<^verbatim>\<open>GM_setValue\<close> throws, \<^verbatim>\<open>setStoredValue\<close> leaves the storage
  as it was. Neither function ever throws.
\<close>

theorem stored_value_round_trip:
  "(GM_getValue_fn env = Working \<and> GM_setValue_fn env = Working \<longrightarrow>
      (\<exists>env'. setStoredValue k v env = Returns env' \<and> getStoredValue k d env' = Returns v)) \<and>
   (GM_getValue env k = Throws e \<longrightarrow> getStoredValue k d env = Returns d) \<and>
   (GM_setValue env k v = Throws e \<longrightarrow> setStoredValue k v env = Returns env) \<and>
   (\<exists>x. getStoredValue k d env = Returns x) \<and>
   (\<exists>env'. setStoredValue k v env = Returns env')"
proof (intro conjI impI)
  assume "GM_getValue_fn env = Working \<and> GM_setValue_fn env = Working"
  then show "\<exists>env'. setStoredValue k v env = Returns env' \<and> getStoredValue k d env' = Returns v"
    by (simp add: setStoredValue_def setStoredValue_try_def GM_setValue_def
        getStoredValue_def getStoredValue_try_def GM_getValue_def)
next
  assume "GM_getValue env k = Throws e"
  then show "getStoredValue k d env = Returns d"
    by (simp add: getStoredValue_def getStoredValue_try_def)
next
  assume "GM_setValue env k v = Throws e"
  then show "setStoredValue k v env = Returns env"
    by (simp add: setStoredValue_def setStoredValue_try_def)
next
  show "\<exists>x. getStoredValue k d env = Returns x"
    by (rule getStoredValue_returns)
next
  show "\<exists>env'. setStoredValue k v env = Returns env'"
    by (rule setStoredValue_returns)
qed

theorem stored_value_round_trip_witness:
  "(GM_getValue_fn working_storage = Working \<and> GM_setValue_fn working_storage = Working) \<and>
   (\<exists>env'. setStoredValue STORAGE_KEY_IP (StoredString ''203.0.113.7'') working_storage =
        Returns env' \<and>
      getStoredValue STORAGE_KEY_IP StoredNull env' = Returns (StoredString ''203.0.113.7'')) \<and>
   GM_getValue (working_storage\<lparr>GM_getValue_fn := Raising\<rparr>) STORAGE_KEY_IP = Throws StorageError \<and>
   getStoredValue STORAGE_KEY_IP StoredNull (working_storage\<lparr>GM_getValue_fn := Raising\<rparr>) =
     Returns StoredNull \<and>
   GM_setValue (working_storage\<lparr>GM_setValue_fn := Raising\<rparr>) STORAGE_KEY_IP
     (StoredString ''203.0.113.7'') = Throws StorageError \<and>
   setStoredValue STORAGE_KEY_IP (StoredString ''203.0.113.7'')
     (working_storage\<lparr>GM_setValue_fn := Raising\<rparr>) =
     Returns (working_storage\<lparr>GM_setValue_fn := Raising\<rparr>)"
proof -
  have w: "GM_getValue_fn working_storage = Working \<and> GM_setValue_fn working_storage = Working"
    by (simp add: working_storage_def)
  have g: "GM_getValue (working_storage\<lparr>GM_getValue_fn := Raising\<rparr>) STORAGE_KEY_IP =
      Throws StorageError"
    by (simp add: GM_getValue_def)
  have s: "GM_setValue (working_storage\<lparr>GM_setValue_fn := Raising\<rparr>) STORAGE_KEY_IP
      (StoredString ''203.0.113.7'') = Throws StorageError"
    by (simp add: GM_setValue_def)
  from stored_value_round_trip
    [of working_storage STORAGE_KEY_IP "StoredString ''203.0.113.7''" StoredNull StorageError]
  have a: "\<exists>env'. setStoredValue STORAGE_KEY_IP (StoredString ''203.0.113.7'') working_storage =
        Returns env' \<and>
      getStoredValue STORAGE_KEY_IP StoredNull env' = Returns (StoredString ''203.0.113.7'')"
    using w by blast
  from stored_value_round_trip
    [of "working_storage\<lparr>GM_getValue_fn := Raising\<rparr>" STORAGE_KEY_IP
        "StoredString ''203.0.113.7''" StoredNull StorageError]
  have b: "getStoredValue STORAGE_KEY_IP StoredNull (working_storage\<lparr>GM_getValue_fn := Raising\<rparr>) =
     Returns StoredNull"
    using g by blast
  from stored_value_round_trip
    [of "working_storage\<lparr>GM_setValue_fn := Raising\<rparr>" STORAGE_KEY_IP
        "StoredString ''203.0.113.7''" StoredNull StorageError]
  have c: "setStoredValue STORAGE_KEY_IP (StoredString ''203.0.113.7'')
     (working_storage\<lparr>GM_setValue_fn := Raising\<rparr>) =
     Returns (working_storage\<lparr>GM_setValue_fn := Raising\<rparr>)"
    using s by blast
  from w a g b s c show ?thesis by blast
qed

section \<open>The hook forwards every call\<close>

text \<open>
  Claim C8. For every argument, the hook gives the connection exactly the outcome of one
  call of the original function with the connection and the arguments it was called with.
  When the detection block throws (a \<^verbatim>\<open>null\<close> argument, a candidate that is no string), the
  detector is left as it was and the original function is still called.
\<close>

theorem hook_forwards_original_call:
  "snd (addIceCandidate_hook origAdd this i rest st) = origAdd this i rest \<and>
   (addIceCandidate_try i st = Throws e \<longrightarrow>
      addIceCandidate_hook origAdd this i rest st = (st, origAdd this i rest))"
  by (simp add: addIceCandidate_hook_def addIceCandidate_detect_def)

theorem hook_forwards_original_call_witness:
  "addIceCandidate_try IceNullish (new_detector fresh_service working_storage) = Throws TypeError \<and>
   snd (addIceCandidate_hook counting_origAdd 0 IceNullish ()
          (new_detector fresh_service working_storage)) = Returns (IceNullish, 1) \<and>
   addIceCandidate_hook counting_origAdd 0 IceNullish ()
     (new_detector fresh_service working_storage) =
     (new_detector fresh_service working_storage, Returns (IceNullish, 1))"
proof -
  have t: "addIceCandidate_try IceNullish (new_detector fresh_service working_storage) =
      Throws TypeError"
    by (simp add: addIceCandidate_try_def candidate_text_def bind_outcome_def)
  have c: "counting_origAdd 0 IceNullish () = Returns (IceNullish, 1)"
    by (simp add: counting_origAdd_def)
  from hook_forwards_original_call
    [of counting_origAdd 0 IceNullish "()" "new_detector fresh_service working_storage" TypeError]
    t c
  show ?thesis by simp
qed

section \<open>Failed lookups\<close>

lemma updateHistory_returns: "\<exists>s'. updateHistory a d now s = Returns s'"
proof -
  obtain svc env where s: "s = (svc, env)"
    by (cases s) auto
  obtain h' where "updateHistory_array a d now (ipHistory svc) = Returns h'"
    using updateHistory_array_returns by blast
  from updateHistory_state [OF this, of env] s show ?thesis by auto
qed

lemma updateHistory_lastReportedIP:
  assumes "updateHistory a d now s = Returns s'"
  shows "lastReportedIP (fst s') = Some a"
proof -
  obtain svc env where s: "s = (svc, env)"
    by (cases s) auto
  obtain h' where "updateHistory_array a d now (ipHistory svc) = Returns h'"
    using updateHistory_array_returns by blast
  from updateHistory_state [OF this, of env] s assms show ?thesis by auto
qed

lemma onload_try_result:
  assumes "getGeolocation_onload_try rn a parsed now s = Returns (r, s')"
  shows "(r = None \<and> s' = s) \<or> (\<exists>d. r = Some d \<and> lastReportedIP (fst s') = Some a)"
  using assms
  by (auto simp: getGeolocation_onload_try_def bind_outcome_def Let_def
      dest: updateHistory_lastReportedIP split: outcome.splits if_splits option.splits)

lemma getGeolocation_result:
  assumes "getGeolocation rn xhr a response now s = Returns (r, s')"
  shows "(r = None \<and> s' = s) \<or> (\<exists>d. r = Some d \<and> lastReportedIP (fst s') = Some a)"
  using assms
  by (auto simp: getGeolocation_def dest: onload_try_result
      split: if_splits xhr_result.splits outcome.splits)

lemma getGeolocation_returns:
  assumes "response = OnError \<or> (\<exists>parsed. response = OnLoad parsed)"
  shows "\<exists>r s'. getGeolocation rn xhr a response now s = Returns (r, s')"
  using assms
  by (auto simp: getGeolocation_def split: outcome.splits)

lemma getGeolocation_rejected:
  assumes "getGeolocation rn xhr a response now s = Throws e"
  shows "response = CallThrows e \<and> a \<noteq> [] \<and> xhr"
  using assms
  by (auto simp: getGeolocation_def split: if_splits xhr_result.splits outcome.splits)

lemma getGeolocation_failure:
  assumes "response = OnError \<or> (\<exists>e. response = OnLoad (Throws e)) \<or>
     (\<exists>json err. response = OnLoad (Returns json) \<and>
        get_prop json ''error'' = Returns err \<and> truthy_prop err) \<or>
     (\<exists>parsed e. response = OnLoad parsed \<and>
        getGeolocation_onload_try rn a parsed now s = Throws e)"
  shows "getGeolocation rn xhr a response now s = Returns (None, s)"
  using assms
  by (auto simp: getGeolocation_def getGeolocation_onload_try_def bind_outcome_def)

text \<open>
  Claim C4, as the code has it. When \<^verbatim>\<open>onerror\<close> is called, when the response text is not
  JSON (\<^verbatim>\<open>JSON.parse\<close> throws), when the parsed response has an \<^verbatim>\<open>error\<close> property with
  a truthy value (the test \<^verbatim>\<open>if (json.error)\<close>), or when anything else in \<^verbatim>\<open>onload\<close>
  throws (the response is \<^verbatim>\<open>null\<close>, the country code has no region name), the promise of
  \<^verbatim>\<open>getGeolocation\<close> is fulfilled with \<^verbatim>\<open>null\<close> and the service and the storage are as
  before. Whenever the request is answered, by \<^verbatim>\<open>onerror\<close> or by \<^verbatim>\<open>onload\<close>, the promise
  is fulfilled; it is rejected only when the call of \<^verbatim>\<open>GM_xmlhttpRequest\<close> itself throws.
  Whenever its value is \<^verbatim>\<open>null\<close> the service and the storage are as before.
\<close>

theorem failed_lookup_returns_null_and_keeps_ledger:
  "(response = OnError \<or> response = OnLoad (Throws e) \<or>
      (response = OnLoad (Returns json) \<and> get_prop json ''error'' = Returns err \<and>
       truthy_prop err) \<or>
      (response = OnLoad parsed \<and>
       getGeolocation_onload_try regionNames_of a parsed now s = Throws e2) \<longrightarrow>
      getGeolocation regionNames_of xhr_defined a response now s = Returns (None, s)) \<and>
   (response = OnError \<or> response = OnLoad answer \<longrightarrow>
      (\<exists>r s'. getGeolocation regionNames_of xhr_defined a response now s = Returns (r, s'))) \<and>
   (getGeolocation regionNames_of xhr_defined a response now s = Throws e3 \<longrightarrow>
      response = CallThrows e3) \<and>
   (getGeolocation regionNames_of xhr_defined a response now s = Returns (None, s') \<longrightarrow> s' = s)"
proof (intro conjI impI)
  assume "response = OnError \<or> response = OnLoad (Throws e) \<or>
      (response = OnLoad (Returns json) \<and> get_prop json ''error'' = Returns err \<and>
       truthy_prop err) \<or>
      (response = OnLoad parsed \<and>
       getGeolocation_onload_try regionNames_of a parsed now s = Throws e2)"
  then show "getGeolocation regionNames_of xhr_defined a response now s = Returns (None, s)"
    by (intro getGeolocation_failure) blast
next
  assume "response = OnError \<or> response = OnLoad answer"
  then show "\<exists>r s'. getGeolocation regionNames_of xhr_defined a response now s = Returns (r, s')"
    by (intro getGeolocation_returns) blast
next
  assume "getGeolocation regionNames_of xhr_defined a response now s = Throws e3"
  from getGeolocation_rejected [OF this] show "response = CallThrows e3"
    by simp
next
  assume "getGeolocation regionNames_of xhr_defined a response now s = Returns (None, s')"
  from getGeolocation_result [OF this] show "s' = s"
    by simp
qed

theorem failed_lookup_returns_null_and_keeps_ledger_witness:
  "get_prop (JObj [(''error'', JObj [(''message'', JStr ''Wrong token'')])]) ''error'' =
     Returns (Some (JObj [(''message'', JStr ''Wrong token'')])) \<and>
   truthy_prop (Some (JObj [(''message'', JStr ''Wrong token'')])) \<and>
   getGeolocation example_regionNames_of True ''203.0.113.7''
     (OnLoad (Returns (JObj [(''error'', JObj [(''message'', JStr ''Wrong token'')])]))) ''t1''
     (fresh_service, working_storage) = Returns (None, (fresh_service, working_storage)) \<and>
   getGeolocation example_regionNames_of True ''203.0.113.7'' OnError ''t1''
     (fresh_service, working_storage) = Returns (None, (fresh_service, working_storage)) \<and>
   getGeolocation example_regionNames_of True ''203.0.113.7'' (OnLoad (Throws SyntaxError)) ''t1''
     (fresh_service, working_storage) = Returns (None, (fresh_service, working_storage)) \<and>
   getGeolocation_onload_try example_regionNames_of ''203.0.113.7'' (Returns JNull) ''t1''
     (fresh_service, working_storage) = Throws TypeError \<and>
   getGeolocation example_regionNames_of True ''203.0.113.7'' (OnLoad (Returns JNull)) ''t1''
     (fresh_service, working_storage) = Returns (None, (fresh_service, working_storage)) \<and>
   (\<exists>r s'. getGeolocation example_regionNames_of True ''203.0.113.7''
      (OnLoad (Returns (JObj []))) ''t1'' (fresh_service, working_storage) = Returns (r, s')) \<and>
   getGeolocation example_regionNames_of True ''203.0.113.7'' (CallThrows TypeError) ''t1''
     (fresh_service, working_storage) = Throws TypeError"
proof -
  let ?err = "JObj [(''message'', JStr ''Wrong token'')]"
  let ?json = "JObj [(''error'', ?err)]"
  let ?s = "(fresh_service, working_storage)"
  have p: "get_prop ?json ''error'' = Returns (Some ?err)"
    by simp
  have t: "truthy_prop (Some ?err)"
    by (simp add: truthy_prop_def)
  have 1: "getGeolocation example_regionNames_of True ''203.0.113.7'' (OnLoad (Returns ?json))
      ''t1'' ?s = Returns (None, ?s)"
    using failed_lookup_returns_null_and_keeps_ledger
      [where response = "OnLoad (Returns ?json)" and json = ?json and err = "Some ?err"
         and regionNames_of = example_regionNames_of and xhr_defined = True
         and a = "''203.0.113.7''" and now = "''t1''" and s = ?s] p t
    by blast
  have 2: "getGeolocation example_regionNames_of True ''203.0.113.7'' OnError ''t1'' ?s =
      Returns (None, ?s)"
    using failed_lookup_returns_null_and_keeps_ledger
      [where response = OnError and regionNames_of = example_regionNames_of
         and xhr_defined = True and a = "''203.0.113.7''" and now = "''t1''" and s = ?s]
    by blast
  have 3: "getGeolocation example_regionNames_of True ''203.0.113.7'' (OnLoad (Throws SyntaxError))
      ''t1'' ?s = Returns (None, ?s)"
    using failed_lookup_returns_null_and_keeps_ledger
      [where response = "OnLoad (Throws SyntaxError)" and e = SyntaxError
         and regionNames_of = example_regionNames_of
         and xhr_defined = True and a = "''203.0.113.7''" and now = "''t1''" and s = ?s]
    by blast
  have n: "getGeolocation_onload_try example_regionNames_of ''203.0.113.7'' (Returns JNull) ''t1''
      ?s = Throws TypeError"
    by (simp add: getGeolocation_onload_try_def bind_outcome_def)
  have 4: "getGeolocation example_regionNames_of True ''203.0.113.7'' (OnLoad (Returns JNull))
      ''t1'' ?s = Returns (None, ?s)"
    using failed_lookup_returns_null_and_keeps_ledger
      [where response = "OnLoad (Returns JNull)" and parsed = "Returns JNull"
         and ?e2.0 = TypeError and regionNames_of = example_regionNames_of
         and xhr_defined = True and a = "''203.0.113.7''" and now = "''t1''" and s = ?s] n
    by blast
  have 5: "\<exists>r s'. getGeolocation example_regionNames_of True ''203.0.113.7''
      (OnLoad (Returns (JObj []))) ''t1'' ?s = Returns (r, s')"
    using failed_lookup_returns_null_and_keeps_ledger
      [where response = "OnLoad (Returns (JObj []))" and answer = "Returns (JObj [])"
         and regionNames_of = example_regionNames_of
         and xhr_defined = True and a = "''203.0.113.7''" and now = "''t1''" and s = ?s]
    by blast
  have r: "getGeolocation example_regionNames_of True ''203.0.113.7'' (CallThrows TypeError)
      ''t1'' ?s = Throws TypeError"
    by (simp add: getGeolocation_def)
  from p t 1 2 3 n 4 5 r show ?thesis by blast
qed

text \<open>
  The claim as written fails on a response that carries an \<^verbatim>\<open>error\<close> field with a falsy
  value and on a response that is JSON of another shape: the empty string and \<^verbatim>\<open>null\<close> as
  the error, and an array as the response, all give data, and the address is recorded in
  the ledger and the storage.
\<close>

theorem failed_lookup_error_field_counterexample:
  "getGeolocation example_regionNames_of True ''203.0.113.7''
     (OnLoad (Returns (JObj [(''error'', JStr [])]))) ''t1'' (fresh_service, working_storage) =
     Returns (Some unknown_data, recorded_unknown ''203.0.113.7'' ''t1'') \<and>
   getGeolocation example_regionNames_of True ''203.0.113.7''
     (OnLoad (Returns (JObj [(''error'', JNull)]))) ''t1'' (fresh_service, working_storage) =
     Returns (Some unknown_data, recorded_unknown ''203.0.113.7'' ''t1'') \<and>
   getGeolocation example_regionNames_of True ''203.0.113.7''
     (OnLoad (Returns (JArr []))) ''t1'' (fresh_service, working_storage) =
     Returns (Some unknown_data, recorded_unknown ''203.0.113.7'' ''t1'') \<and>
   recorded_unknown ''203.0.113.7'' ''t1'' \<noteq> (fresh_service, working_storage)"
  by (simp add: getGeolocation_def getGeolocation_onload_try_def bind_outcome_def
      truthy_prop_def or_NA_def Let_def updateHistory_def updateHistory_array_def
      setStoredValue_def setStoredValue_try_def GM_setValue_def STORAGE_KEY_IP_def
      STORAGE_KEY_HISTORY_def fresh_service_def working_storage_def MAX_IP_HISTORY_def
      unknown_data_def recorded_unknown_def fun_upd_twist)

text \<open>For comparison, a lookup that succeeds: the data is built and the ledger updated.\<close>

lemma successful_lookup_example:
  "getGeolocation example_regionNames_of True ''203.0.113.7''
     (OnLoad (Returns (JObj [(''ip'', JStr ''203.0.113.7''), (''country'', JStr ''FR''),
                             (''city'', JStr ''Paris'')]))) ''t1''
     (fresh_service, working_storage\<lparr>GM_setValue_fn := NotAFunction\<rparr>) =
   Returns
     (Some [(''IP Address'', JStr ''203.0.113.7''), (''Country'', JStr ''France''),
            (''Region'', JStr ''N/A''), (''City'', JStr ''Paris''), (''Location'', JStr ''N/A''),
            (''ISP'', JStr ''N/A''), (''Hostname'', JStr ''N/A''), (''VPN/Proxy'', JStr ''No'')],
      (\<lparr>ipHistory =
          [\<lparr>ip = ''203.0.113.7'',
            data = [(''IP Address'', JStr ''203.0.113.7''), (''Country'', JStr ''France''),
                    (''Region'', JStr ''N/A''), (''City'', JStr ''Paris''),
                    (''Location'', JStr ''N/A''), (''ISP'', JStr ''N/A''),
                    (''Hostname'', JStr ''N/A''), (''VPN/Proxy'', JStr ''No'')],
            timestamp = ''t1''\<rparr>],
        lastReportedIP = Some ''203.0.113.7''\<rparr>,
       working_storage\<lparr>GM_setValue_fn := NotAFunction\<rparr>))"
  by (simp add: getGeolocation_def getGeolocation_onload_try_def bind_outcome_def
      truthy_prop_def or_NA_def example_regionNames_of_def Let_def
      updateHistory_def updateHistory_array_def setStoredValue_def setStoredValue_try_def
      fresh_service_def working_storage_def MAX_IP_HISTORY_def)

section \<open>Admission of an address\<close>

lemma detect_classified:
  assumes "candidate_text i = Returns cand" "classify cand = Some a"
  shows "addIceCandidate_detect i st =
           (if is_new_ip a st
            then st\<lparr>detectedIps := insert a (detectedIps st),
                    getGeolocation_calls := getGeolocation_calls st @ [a]\<rparr>
            else st)"
  using assms
  by (simp add: addIceCandidate_detect_def addIceCandidate_try_def bind_outcome_def)

lemma admits_classified:
  assumes "candidate_text i = Returns cand" "classify cand = Some a"
  shows "admits i st \<longleftrightarrow> is_new_ip a st"
  by (simp add: admits_def detect_classified [OF assms])

lemma detect_detectedIps: "detectedIps st \<subseteq> detectedIps (addIceCandidate_detect i st)"
  by (auto simp: addIceCandidate_detect_def addIceCandidate_try_def bind_outcome_def
      split: outcome.splits option.splits if_splits)

lemma step_detectedIps: "detectedIps st \<subseteq> detectedIps (step rn xhr ev st)"
proof (cases ev)
  case (IceCandidate i)
  then show ?thesis
    using detect_detectedIps [of st i] by (simp add: step_def)
next
  case (Answer a response now)
  then show ?thesis
    by (auto simp: step_def split: outcome.splits)
qed

lemma run_detectedIps: "detectedIps st \<subseteq> detectedIps (run rn xhr evs st)"
proof (induction evs arbitrary: st)
  case Nil
  then show ?case by simp
next
  case (Cons ev evs)
  have "detectedIps st \<subseteq> detectedIps (step rn xhr ev st)"
    by (rule step_detectedIps)
  also have "\<dots> \<subseteq> detectedIps (run rn xhr evs (step rn xhr ev st))"
    by (rule Cons.IH)
  finally show ?case by simp
qed

lemma admitted_once:
  assumes i: "candidate_text i = Returns cand" "classify cand = Some a"
    and i2: "candidate_text i2 = Returns cand2" "classify cand2 = Some a"
    and adm: "admits i st"
  shows "\<not> admits i2 (run rn xhr evs (addIceCandidate_detect i st))"
proof -
  from adm have "is_new_ip a st"
    by (simp add: admits_classified [OF i])
  then have "a \<in> detectedIps (addIceCandidate_detect i st)"
    by (simp add: detect_classified [OF i])
  then have "a \<in> detectedIps (run rn xhr evs (addIceCandidate_detect i st))"
    using run_detectedIps by blast
  then show ?thesis
    by (simp add: admits_classified [OF i2] is_new_ip_def)
qed

text \<open>
  Claim C6. A candidate whose line gives the address \<open>a\<close> is admitted exactly when \<open>a\<close>
  differs from the last reported address and is not in the set of the session. When it is
  admitted, \<open>a\<close> is put into the set and one request for \<open>a\<close> is started; whatever events
  follow in the session, a later candidate with the same address is not admitted.
\<close>

theorem admit_iff_new_and_only_once:
  "candidate_text i = Returns cand \<and> classify cand = Some a \<longrightarrow>
     (admits i st \<longleftrightarrow> Some a \<noteq> lastReportedIP (geoService st) \<and> a \<notin> detectedIps st) \<and>
     (admits i st \<longrightarrow>
        addIceCandidate_detect i st =
          st\<lparr>detectedIps := insert a (detectedIps st),
             getGeolocation_calls := getGeolocation_calls st @ [a]\<rparr> \<and>
        (candidate_text i2 = Returns cand2 \<and> classify cand2 = Some a \<longrightarrow>
           \<not> admits i2 (run regionNames_of xhr_defined evs (addIceCandidate_detect i st))))"
proof (intro impI)
  assume h: "candidate_text i = Returns cand \<and> classify cand = Some a"
  then have i: "candidate_text i = Returns cand" "classify cand = Some a"
    by simp_all
  have 1: "admits i st \<longleftrightarrow> Some a \<noteq> lastReportedIP (geoService st) \<and> a \<notin> detectedIps st"
    by (simp add: admits_classified [OF i] is_new_ip_def)
  have 2: "addIceCandidate_detect i st =
          st\<lparr>detectedIps := insert a (detectedIps st),
             getGeolocation_calls := getGeolocation_calls st @ [a]\<rparr>" if "admits i st"
    using that by (simp add: admits_classified [OF i] detect_classified [OF i])
  have 3: "\<not> admits i2 (run regionNames_of xhr_defined evs (addIceCandidate_detect i st))"
    if "admits i st" "candidate_text i2 = Returns cand2 \<and> classify cand2 = Some a"
    using that admitted_once [OF i, of i2 cand2 st] by simp
  from 1 2 3 show "(admits i st \<longleftrightarrow> Some a \<noteq> lastReportedIP (geoService st) \<and> a \<notin> detectedIps st) \<and>
     (admits i st \<longrightarrow>
        addIceCandidate_detect i st =
          st\<lparr>detectedIps := insert a (detectedIps st),
             getGeolocation_calls := getGeolocation_calls st @ [a]\<rparr> \<and>
        (candidate_text i2 = Returns cand2 \<and> classify cand2 = Some a \<longrightarrow>
           \<not> admits i2 (run regionNames_of xhr_defined evs (addIceCandidate_detect i st))))"
    by blast
qed

lemma regex_match_typ_example: "regex_match typ_regex_at example_line = Some ''typ srflx''"
  by (simp add: example_line_def typ_regex_at_def seq_re_def lit_def one_of_def is_space_def)

lemma regex_match_ip_example: "regex_match ip_regex_at example_line = Some ''203.0.113.7''"
  by (simp add: example_line_def ip_regex_at_def dot_group_def seq_re_def lit_def is_digit_def
      eval_nat_numeral)

lemma classify_example: "classify example_line = Some ''203.0.113.7''"
  by (simp add: classify_def regex_match_typ_example regex_match_ip_example)

lemma candidate_text_example: "candidate_text example_ice = Returns example_line"
  by (simp add: candidate_text_def example_ice_def)

theorem admit_iff_new_and_only_once_witness:
  "(candidate_text example_ice = Returns example_line \<and>
    classify example_line = Some ''203.0.113.7'') \<and>
   admits example_ice (new_detector fresh_service working_storage) \<and>
   addIceCandidate_detect example_ice (new_detector fresh_service working_storage) =
     (new_detector fresh_service working_storage)
       \<lparr>detectedIps := {''203.0.113.7''}, getGeolocation_calls := [''203.0.113.7'']\<rparr> \<and>
   \<not> admits example_ice
       (run example_regionNames_of True [Answer ''203.0.113.7'' OnError ''t1'']
          (addIceCandidate_detect example_ice (new_detector fresh_service working_storage)))"
proof -
  let ?st = "new_detector fresh_service working_storage"
  have c: "candidate_text example_ice = Returns example_line \<and>
      classify example_line = Some ''203.0.113.7''"
    by (simp add: candidate_text_example classify_example)
  have n: "Some ''203.0.113.7'' \<noteq> lastReportedIP (geoService ?st) \<and>
      ''203.0.113.7'' \<notin> detectedIps ?st"
    by (simp add: new_detector_def fresh_service_def)
  note T = admit_iff_new_and_only_once
    [where i = example_ice and cand = example_line and a = "''203.0.113.7''" and st = ?st
       and ?i2.0 = example_ice and ?cand2.0 = example_line
       and regionNames_of = example_regionNames_of and xhr_defined = True
       and evs = "[Answer ''203.0.113.7'' OnError ''t1'']"]
  from T c n have adm: "admits example_ice ?st"
    by blast
  from T c adm have d: "addIceCandidate_detect example_ice ?st =
      ?st\<lparr>detectedIps := insert ''203.0.113.7'' (detectedIps ?st),
          getGeolocation_calls := getGeolocation_calls ?st @ [''203.0.113.7'']\<rparr>"
    by blast
  have eq: "?st\<lparr>detectedIps := insert ''203.0.113.7'' (detectedIps ?st),
          getGeolocation_calls := getGeolocation_calls ?st @ [''203.0.113.7'']\<rparr> =
      ?st\<lparr>detectedIps := {''203.0.113.7''}, getGeolocation_calls := [''203.0.113.7'']\<rparr>"
    by (simp add: new_detector_def)
  from d eq have d': "addIceCandidate_detect example_ice ?st =
      ?st\<lparr>detectedIps := {''203.0.113.7''}, getGeolocation_calls := [''203.0.113.7'']\<rparr>"
    by (rule trans)
  from T c adm have "\<not> admits example_ice
       (run example_regionNames_of True [Answer ''203.0.113.7'' OnError ''t1'']
          (addIceCandidate_detect example_ice ?st))"
    by blast
  with c adm d' show ?thesis
    by blast
qed

section \<open>A failed lookup and the next candidate\<close>

lemma step_failed_answer:
  assumes "getGeolocation rn xhr a response now (geoService st, storage st) = Returns (None, s')"
  shows "step rn xhr (Answer a response now) st = st"
proof -
  from getGeolocation_result [OF assms] have "s' = (geoService st, storage st)"
    by simp
  with assms show ?thesis
    by (simp add: step_def)
qed

lemma new_session_admits:
  assumes "candidate_text i = Returns cand" "classify cand = Some a"
    and "lastReportedIP (GeolocationService_new env) \<noteq> Some a"
  shows "admits i (new_detector (GeolocationService_new env) env)"
  using assms(3)
  by (auto simp: admits_classified [OF assms(1,2)] is_new_ip_def new_detector_def)

text \<open>
  Claim C2, as the code has it. Let a candidate with address \<open>a\<close> be admitted, let any
  events follow, and let the request for \<open>a\<close> then be answered with a failure (the promise
  is fulfilled with \<^verbatim>\<open>null\<close>). The answer changes nothing: the last reported address and
  the ledger are as before it. The address stays in the set of the session, so no later
  candidate with this address is admitted in the session. A new session, whose set is
  empty, admits it when the stored last reported address is another one. The last reported
  address changes only with an answer that gives data.
\<close>

theorem failed_lookup_keeps_last_reported_no_retry_in_session:
  "(candidate_text i = Returns cand \<and> classify cand = Some a \<and> admits i st \<and>
    getGeolocation regionNames_of xhr_defined a response now
      (geoService (run regionNames_of xhr_defined evs (addIceCandidate_detect i st)),
       storage (run regionNames_of xhr_defined evs (addIceCandidate_detect i st))) =
      Returns (None, s') \<longrightarrow>
      step regionNames_of xhr_defined (Answer a response now)
        (run regionNames_of xhr_defined evs (addIceCandidate_detect i st)) =
        run regionNames_of xhr_defined evs (addIceCandidate_detect i st) \<and>
      \<not> admits i
          (run regionNames_of xhr_defined (evs @ Answer a response now # evs2)
             (addIceCandidate_detect i st)) \<and>
      (lastReportedIP (GeolocationService_new env) \<noteq> Some a \<longrightarrow>
         admits i (new_detector (GeolocationService_new env) env))) \<and>
   (getGeolocation regionNames_of xhr_defined b response2 now2 s2 = Returns (r, s3) \<and>
    lastReportedIP (fst s3) \<noteq> lastReportedIP (fst s2) \<longrightarrow> r \<noteq> None)"
proof (intro conjI impI)
  assume h: "candidate_text i = Returns cand \<and> classify cand = Some a \<and> admits i st \<and>
    getGeolocation regionNames_of xhr_defined a response now
      (geoService (run regionNames_of xhr_defined evs (addIceCandidate_detect i st)),
       storage (run regionNames_of xhr_defined evs (addIceCandidate_detect i st))) =
      Returns (None, s')"
  then show "step regionNames_of xhr_defined (Answer a response now)
        (run regionNames_of xhr_defined evs (addIceCandidate_detect i st)) =
        run regionNames_of xhr_defined evs (addIceCandidate_detect i st)"
    using step_failed_answer by blast
  from h have i: "candidate_text i = Returns cand" "classify cand = Some a" and adm: "admits i st"
    by simp_all
  show "\<not> admits i
          (run regionNames_of xhr_defined (evs @ Answer a response now # evs2)
             (addIceCandidate_detect i st))"
    by (rule admitted_once [OF i i adm])
  assume "lastReportedIP (GeolocationService_new env) \<noteq> Some a"
  then show "admits i (new_detector (GeolocationService_new env) env)"
    by (rule new_session_admits [OF i])
next
  assume "getGeolocation regionNames_of xhr_defined b response2 now2 s2 = Returns (r, s3) \<and>
    lastReportedIP (fst s3) \<noteq> lastReportedIP (fst s2)"
  then show "r \<noteq> None"
    using getGeolocation_result [of regionNames_of xhr_defined b response2 now2 s2 r s3]
    by auto
qed

theorem failed_lookup_keeps_last_reported_no_retry_in_session_witness:
  "(candidate_text example_ice = Returns example_line \<and>
    classify example_line = Some ''203.0.113.7'' \<and>
    admits example_ice (new_detector fresh_service working_storage) \<and>
    getGeolocation example_regionNames_of True ''203.0.113.7'' OnError ''t1''
      (geoService (run example_regionNames_of True []
         (addIceCandidate_detect example_ice (new_detector fresh_service working_storage))),
       storage (run example_regionNames_of True []
         (addIceCandidate_detect example_ice (new_detector fresh_service working_storage)))) =
      Returns (None, (fresh_service, working_storage))) \<and>
   step example_regionNames_of True (Answer ''203.0.113.7'' OnError ''t1'')
     (run example_regionNames_of True []
        (addIceCandidate_detect example_ice (new_detector fresh_service working_storage))) =
     run example_regionNames_of True []
       (addIceCandidate_detect example_ice (new_detector fresh_service working_storage)) \<and>
   \<not> admits example_ice
       (run example_regionNames_of True
          ([] @ Answer ''203.0.113.7'' OnError ''t1'' # [IceCandidate example_ice])
          (addIceCandidate_detect example_ice (new_detector fresh_service working_storage))) \<and>
   lastReportedIP (GeolocationService_new working_storage) \<noteq> Some ''203.0.113.7'' \<and>
   admits example_ice (new_detector (GeolocationService_new working_storage) working_storage) \<and>
   (getGeolocation example_regionNames_of True ''203.0.113.7''
      (OnLoad (Returns (JObj [(''ip'', JStr ''203.0.113.7'')]))) ''t2''
      (fresh_service, working_storage\<lparr>GM_setValue_fn := NotAFunction\<rparr>) =
      Returns
        (Some [(''IP Address'', JStr ''203.0.113.7''), (''Country'', JStr ''N/A''),
               (''Region'', JStr ''N/A''), (''City'', JStr ''N/A''), (''Location'', JStr ''N/A''),
               (''ISP'', JStr ''N/A''), (''Hostname'', JStr ''N/A''), (''VPN/Proxy'', JStr ''No'')],
         (\<lparr>ipHistory =
             [\<lparr>ip = ''203.0.113.7'',
               data = [(''IP Address'', JStr ''203.0.113.7''), (''Country'', JStr ''N/A''),
                       (''Region'', JStr ''N/A''), (''City'', JStr ''N/A''),
                       (''Location'', JStr ''N/A''), (''ISP'', JStr ''N/A''),
                       (''Hostname'', JStr ''N/A''), (''VPN/Proxy'', JStr ''No'')],
               timestamp = ''t2''\<rparr>],
           lastReportedIP = Some ''203.0.113.7''\<rparr>,
          working_storage\<lparr>GM_setValue_fn := NotAFunction\<rparr>)) \<and>
    lastReportedIP (fst (\<lparr>ipHistory =
             [\<lparr>ip = ''203.0.113.7'',
               data = [(''IP Address'', JStr ''203.0.113.7''), (''Country'', JStr ''N/A''),
                       (''Region'', JStr ''N/A''), (''City'', JStr ''N/A''),
                       (''Location'', JStr ''N/A''), (''ISP'', JStr ''N/A''),
                       (''Hostname'', JStr ''N/A''), (''VPN/Proxy'', JStr ''No'')],
               timestamp = ''t2''\<rparr>],
           lastReportedIP = Some ''203.0.113.7''\<rparr>,
          working_storage\<lparr>GM_setValue_fn := NotAFunction\<rparr>)) \<noteq>
      lastReportedIP (fst (fresh_service, working_storage\<lparr>GM_setValue_fn := NotAFunction\<rparr>)))"
proof -
  let ?st = "new_detector fresh_service working_storage"
  let ?d = "[(''IP Address'', JStr ''203.0.113.7''), (''Country'', JStr ''N/A''),
             (''Region'', JStr ''N/A''), (''City'', JStr ''N/A''), (''Location'', JStr ''N/A''),
             (''ISP'', JStr ''N/A''), (''Hostname'', JStr ''N/A''), (''VPN/Proxy'', JStr ''No'')]"
  let ?s2 = "(fresh_service, working_storage\<lparr>GM_setValue_fn := NotAFunction\<rparr>)"
  let ?s3 = "(\<lparr>ipHistory = [\<lparr>ip = ''203.0.113.7'', data = ?d, timestamp = ''t2''\<rparr>],
               lastReportedIP = Some ''203.0.113.7''\<rparr>,
              working_storage\<lparr>GM_setValue_fn := NotAFunction\<rparr>)"
  note T = failed_lookup_keeps_last_reported_no_retry_in_session
    [where i = example_ice and cand = example_line and a = "''203.0.113.7''" and st = ?st
       and regionNames_of = example_regionNames_of and xhr_defined = True
       and evs = "[]" and response = OnError and now = "''t1''"
       and s' = "(fresh_service, working_storage)"
       and ?evs2.0 = "[IceCandidate example_ice]" and env = working_storage
       and b = "''203.0.113.7''"
       and ?response2.0 = "OnLoad (Returns (JObj [(''ip'', JStr ''203.0.113.7'')]))"
       and ?now2.0 = "''t2''" and ?s2.0 = ?s2 and r = "Some ?d" and ?s3.0 = ?s3]
  have c: "candidate_text example_ice = Returns example_line"
    "classify example_line = Some ''203.0.113.7''"
    by (simp_all add: candidate_text_example classify_example)
  have adm: "admits example_ice ?st"
    by (simp add: admits_classified [OF c] is_new_ip_def new_detector_def fresh_service_def)
  have g: "getGeolocation example_regionNames_of True ''203.0.113.7'' OnError ''t1''
      (geoService (run example_regionNames_of True [] (addIceCandidate_detect example_ice ?st)),
       storage (run example_regionNames_of True [] (addIceCandidate_detect example_ice ?st))) =
      Returns (None, (fresh_service, working_storage))"
    by (simp add: getGeolocation_def detect_classified [OF c] new_detector_def)
  have l: "lastReportedIP (GeolocationService_new working_storage) \<noteq> Some ''203.0.113.7''"
    by (simp add: GeolocationService_new_def getStoredValue_def getStoredValue_try_def
        GM_getValue_def working_storage_def)
  have ok: "getGeolocation example_regionNames_of True ''203.0.113.7''
      (OnLoad (Returns (JObj [(''ip'', JStr ''203.0.113.7'')]))) ''t2'' ?s2 = Returns (Some ?d, ?s3)"
    by (simp add: getGeolocation_def getGeolocation_onload_try_def bind_outcome_def
        truthy_prop_def or_NA_def Let_def updateHistory_def updateHistory_array_def
        setStoredValue_def setStoredValue_try_def fresh_service_def working_storage_def
        MAX_IP_HISTORY_def)
  have ch: "lastReportedIP (fst ?s3) \<noteq> lastReportedIP (fst ?s2)"
    by (simp add: fresh_service_def)
  from T c adm g l ok ch show ?thesis
    by blast
qed

text \<open>
  The claim as written fails on the retry: after the failed lookup, the same candidate is
  not admitted in the same session.
\<close>

theorem failed_lookup_retry_counterexample:
  "admits example_ice (new_detector fresh_service working_storage) \<and>
   run example_regionNames_of True
     [IceCandidate example_ice, Answer ''203.0.113.7'' OnError ''t1'']
     (new_detector fresh_service working_storage) =
     \<lparr>geoService = fresh_service, storage = working_storage,
      detectedIps = {''203.0.113.7''}, getGeolocation_calls = [''203.0.113.7'']\<rparr> \<and>
   \<not> admits example_ice
       (run example_regionNames_of True
          [IceCandidate example_ice, Answer ''203.0.113.7'' OnError ''t1'']
          (new_detector fresh_service working_storage))"
  by (simp add: admits_def addIceCandidate_detect_def addIceCandidate_try_def
      candidate_text_example classify_example bind_outcome_def is_new_ip_def step_def
      getGeolocation_def new_detector_def fresh_service_def)

section \<open>The classifier\<close>

lemma recognises_lit: "recognises (lit x) {x}"
proof -
  have "take (length x) s = x \<longleftrightarrow> s = x @ drop (length x) s" for s
    by (metis append_eq_conv_conj)
  then show ?thesis
    by (auto simp: recognises_def lit_def)
qed

lemma recognises_one_of: "recognises (one_of P) {[c] | c. P c}"
  by (auto simp: recognises_def one_of_def split: list.splits)



lemma in_seq_re:
  "(m, r) \<in> set (seq_re p q s) \<longleftrightarrow>
     (\<exists>m1 r1 m2. (m1, r1) \<in> set (p s) \<and> (m2, r) \<in> set (q r1) \<and> m = m1 @ m2)"
  by (force simp: seq_re_def)

lemma recognises_seq_re:
  assumes "recognises p L1" "recognises q L2"
  shows "recognises (seq_re p q) {m1 @ m2 | m1 m2. m1 \<in> L1 \<and> m2 \<in> L2}"
proof -
  have "(m, r) \<in> set (seq_re p q s) \<longleftrightarrow>
      s = m @ r \<and> (\<exists>m1 m2. m = m1 @ m2 \<and> m1 \<in> L1 \<and> m2 \<in> L2)" for m r s
  proof -
    have "(m, r) \<in> set (seq_re p q s) \<longleftrightarrow>
        (\<exists>m1 r1 m2. (s = m1 @ r1 \<and> m1 \<in> L1) \<and> (r1 = m2 @ r \<and> m2 \<in> L2) \<and> m = m1 @ m2)"
      using assms by (simp add: in_seq_re recognises_def)
    also have "\<dots> \<longleftrightarrow> s = m @ r \<and> (\<exists>m1 m2. m = m1 @ m2 \<and> m1 \<in> L1 \<and> m2 \<in> L2)"
      by (metis append.assoc)
    finally show ?thesis .
  qed
  then show ?thesis
    unfolding recognises_def by blast
qed

lemma recognises_cong: "recognises p L \<Longrightarrow> L = L' \<Longrightarrow> recognises p L'"
  by simp

lemma recognises_typ_regex_at:
  "recognises typ_regex_at {''typ'' @ [w] @ ''srflx'' | w. is_space w}"
proof -
  have "recognises typ_regex_at
      {m1 @ m2 | m1 m2. m1 \<in> {''typ''} \<and>
         m2 \<in> {m3 @ m4 | m3 m4. m3 \<in> {[c] | c. is_space c} \<and> m4 \<in> {''srflx''}}}"
    unfolding typ_regex_at_def
    by (intro recognises_seq_re recognises_lit recognises_one_of)
  then show ?thesis
    by (rule recognises_cong) auto
qed






lemma regex_match_None: "regex_match re s = None \<longleftrightarrow> (\<forall>pre u. s = pre @ u \<longrightarrow> re u = [])"
proof (induction s)
  case Nil
  then show ?case by (auto split: list.splits)
next
  case (Cons c s)
  have "regex_match re (c # s) = None \<longleftrightarrow> re (c # s) = [] \<and> regex_match re s = None"
    by (auto split: list.splits)
  also have "\<dots> \<longleftrightarrow> re (c # s) = [] \<and> (\<forall>pre u. s = pre @ u \<longrightarrow> re u = [])"
    by (simp add: Cons.IH)
  also have "\<dots> \<longleftrightarrow> (\<forall>pre u. c # s = pre @ u \<longrightarrow> re u = [])"
    by (auto simp: Cons_eq_append_conv)
  finally show ?case .
qed


lemma regex_match_recognises_iff:
  assumes "recognises re L"
  shows "regex_match re s \<noteq> None \<longleftrightarrow> (\<exists>pre m post. s = pre @ m @ post \<and> m \<in> L)"
proof -
  have "re u \<noteq> [] \<longleftrightarrow> (\<exists>m post. u = m @ post \<and> m \<in> L)" for u
  proof -
    have "re u \<noteq> [] \<longleftrightarrow> set (re u) \<noteq> {}"
      by simp
    also have "\<dots> \<longleftrightarrow> (\<exists>m post. u = m @ post \<and> m \<in> L)"
      using assms by (auto simp: recognises_def)
    finally show ?thesis .
  qed
  then show ?thesis
    by (simp add: regex_match_None) blast
qed


lemma typ_match_iff_marker: "regex_match typ_regex_at cand \<noteq> None \<longleftrightarrow> has_srflx_marker cand"
proof
  assume "regex_match typ_regex_at cand \<noteq> None"
  then obtain pre m post where c: "cand = pre @ m @ post"
    and m: "m \<in> {''typ'' @ [w] @ ''srflx'' | w. is_space w}"
    using regex_match_recognises_iff [OF recognises_typ_regex_at, of cand] by blast
  from m obtain w where "m = ''typ'' @ [w] @ ''srflx''" "is_space w"
    by blast
  with c have "cand = pre @ ''typ'' @ [w] @ ''srflx'' @ post \<and> is_space w"
    by simp
  then show "has_srflx_marker cand"
    unfolding has_srflx_marker_def by blast
next
  assume "has_srflx_marker cand"
  then obtain pre w post where "cand = pre @ ''typ'' @ [w] @ ''srflx'' @ post" "is_space w"
    unfolding has_srflx_marker_def by blast
  then have "cand = pre @ (''typ'' @ [w] @ ''srflx'') @ post"
    "''typ'' @ [w] @ ''srflx'' \<in> {''typ'' @ [w] @ ''srflx'' | w. is_space w}"
    by auto
  then have "\<exists>pre m post. cand = pre @ m @ post \<and>
      m \<in> {''typ'' @ [w] @ ''srflx'' | w. is_space w}"
    by (intro exI conjI)
  then show "regex_match typ_regex_at cand \<noteq> None"
    by (simp only: regex_match_recognises_iff [OF recognises_typ_regex_at])
qed







section \<open>No range check on the groups\<close>

lemma seq_re_Cons:
  assumes "p s = (m1, r1) # ps" "q r1 = (m2, r2) # qs"
  shows "\<exists>rest. seq_re p q s = (m1 @ m2, r2) # rest"
  using assms by (simp add: seq_re_def)

lemma digit_prefixes_Nil:
  "n = 0 \<or> rest = [] \<or> \<not> is_digit (hd rest) \<Longrightarrow> digit_prefixes n rest = []"
  by (cases n; cases rest) auto

lemma digit_prefixes_longest:
  assumes "g \<noteq> []" "length g \<le> n" "list_all is_digit g"
    and "length g = n \<or> rest = [] \<or> \<not> is_digit (hd rest)"
  shows "\<exists>ps. digit_prefixes n (g @ rest) = (g, rest) # ps"
  using assms
proof (induction g arbitrary: n)
  case Nil
  then show ?case by simp
next
  case (Cons c g)
  from Cons.prems obtain k where n: "n = Suc k"
    by (cases n) auto
  from Cons.prems have c: "is_digit c"
    by simp
  show ?case
  proof (cases "g = []")
    case True
    with Cons.prems n have "k = 0 \<or> rest = [] \<or> \<not> is_digit (hd rest)"
      by auto
    then have "digit_prefixes k rest = []"
      by (rule digit_prefixes_Nil)
    with True c n show ?thesis
      by simp
  next
    case False
    from Cons.prems n have "length g \<le> k" "list_all is_digit g"
      "length g = k \<or> rest = [] \<or> \<not> is_digit (hd rest)"
      by auto
    from Cons.IH [OF False this] obtain ps where "digit_prefixes k (g @ rest) = (g, rest) # ps"
      by blast
    with c n show ?thesis
      by simp
  qed
qed

lemma dot_not_digit: "\<not> is_digit (CHR ''.'')"
  by (simp add: is_digit_def)

lemma dot_group_longest:
  assumes "digit_group g" "length g = 3 \<or> rest = [] \<or> \<not> is_digit (hd rest)"
  shows "\<exists>ps. dot_group (''.'' @ g @ rest) = (''.'' @ g, rest) # ps"
proof -
  have l: "lit ''.'' (''.'' @ g @ rest) = (''.'', g @ rest) # []"
    by (simp add: lit_def)
  obtain ps where d: "digit_prefixes 3 (g @ rest) = (g, rest) # ps"
    using digit_prefixes_longest [of g 3 rest] assms by (auto simp: digit_group_def)
  from seq_re_Cons [where p = "lit ''.''" and q = "digit_prefixes 3", OF l d] show ?thesis
    by (simp only: dot_group_def)
qed

lemma ip_regex_at_longest:
  assumes g: "digit_group g1" "digit_group g2" "digit_group g3" "digit_group g4"
    and post: "post = [] \<or> \<not> is_digit (hd post)"
  shows "\<exists>ps. ip_regex_at (g1 @ ''.'' @ g2 @ ''.'' @ g3 @ ''.'' @ g4 @ post) =
           (g1 @ ''.'' @ g2 @ ''.'' @ g3 @ ''.'' @ g4, post) # ps"
proof -
  let ?r3 = "''.'' @ g4 @ post"
  let ?r2 = "''.'' @ g3 @ ?r3"
  let ?r1 = "''.'' @ g2 @ ?r2"
  obtain p4 where d4: "dot_group ?r3 = (''.'' @ g4, post) # p4"
    using dot_group_longest [OF g(4), of post] post by blast
  obtain p3 where d3: "dot_group ?r2 = (''.'' @ g3, ?r3) # p3"
    using dot_group_longest [OF g(3), of ?r3] dot_not_digit by auto
  obtain p2 where d2: "dot_group ?r1 = (''.'' @ g2, ?r2) # p2"
    using dot_group_longest [OF g(2), of ?r2] dot_not_digit by auto
  obtain p1 where d1: "digit_prefixes 3 (g1 @ ?r1) = (g1, ?r1) # p1"
    using digit_prefixes_longest [of g1 3 ?r1] g(1) dot_not_digit
    by (auto simp: digit_group_def)
  obtain q3 where s3: "seq_re dot_group dot_group ?r2 = ((''.'' @ g3) @ (''.'' @ g4), post) # q3"
    using seq_re_Cons [where p = dot_group and q = dot_group, OF d3 d4] by blast
  obtain q2 where s2: "seq_re dot_group (seq_re dot_group dot_group) ?r1 =
      ((''.'' @ g2) @ ((''.'' @ g3) @ (''.'' @ g4)), post) # q2"
    using seq_re_Cons [where p = dot_group and q = "seq_re dot_group dot_group", OF d2 s3]
    by blast
  obtain q1 where "seq_re (digit_prefixes 3) (seq_re dot_group (seq_re dot_group dot_group))
      (g1 @ ?r1) = (g1 @ ((''.'' @ g2) @ ((''.'' @ g3) @ (''.'' @ g4))), post) # q1"
    using seq_re_Cons [where p = "digit_prefixes 3"
        and q = "seq_re dot_group (seq_re dot_group dot_group)", OF d1 s2]
    by blast
  then show ?thesis
    by (simp add: ip_regex_at_def)
qed

lemma ip_regex_at_non_digit: "\<not> is_digit c \<Longrightarrow> ip_regex_at (c # s) = []"
  by (simp add: ip_regex_at_def seq_re_def eval_nat_numeral)

lemma regex_match_ip_skip:
  "\<forall>c \<in> set pre. \<not> is_digit c \<Longrightarrow>
     regex_match ip_regex_at (pre @ s) = regex_match ip_regex_at s"
  by (induction pre) (simp_all add: ip_regex_at_non_digit)

lemma regex_match_head: "re s = (m, r) # ps \<Longrightarrow> regex_match re s = Some m"
  by (cases s) simp_all

lemma classify_dotted_quad:
  assumes g: "digit_group g1" "digit_group g2" "digit_group g3" "digit_group g4"
    and pre: "\<forall>c \<in> set pre. \<not> is_digit c"
    and post: "post = [] \<or> \<not> is_digit (hd post)"
    and marker: "has_srflx_marker (pre @ g1 @ ''.'' @ g2 @ ''.'' @ g3 @ ''.'' @ g4 @ post)"
  shows "classify (pre @ g1 @ ''.'' @ g2 @ ''.'' @ g3 @ ''.'' @ g4 @ post) =
           Some (g1 @ ''.'' @ g2 @ ''.'' @ g3 @ ''.'' @ g4)"
proof -
  let ?t = "g1 @ ''.'' @ g2 @ ''.'' @ g3 @ ''.'' @ g4"
  let ?cand = "pre @ g1 @ ''.'' @ g2 @ ''.'' @ g3 @ ''.'' @ g4 @ post"
  obtain ps where "ip_regex_at (g1 @ ''.'' @ g2 @ ''.'' @ g3 @ ''.'' @ g4 @ post) = (?t, post) # ps"
    using ip_regex_at_longest [OF g post] by blast
  then have "regex_match ip_regex_at (g1 @ ''.'' @ g2 @ ''.'' @ g3 @ ''.'' @ g4 @ post) = Some ?t"
    by (rule regex_match_head)
  then have ipm: "regex_match ip_regex_at ?cand = Some ?t"
    by (simp only: regex_match_ip_skip [OF pre])
  from marker obtain tm where "regex_match typ_regex_at ?cand = Some tm"
    using typ_match_iff_marker [of ?cand] by auto
  with ipm show ?thesis
    by (simp only: classify_def option.case)
qed

lemma classify_999: "classify ''typ srflx 999.999.999.999'' = Some ''999.999.999.999''"
  by (simp add: classify_def typ_regex_at_def ip_regex_at_def dot_group_def seq_re_def lit_def
      one_of_def is_space_def is_digit_def eval_nat_numeral)

text \<open>
  Claim C10. The second expression does not look at the value of a group. Let a line
  consist of a part without digits, four groups of one to three digits separated by dots,
  and a rest that does not start with a digit, and let it contain the marker: the four
  groups with their dots are the address, whatever their values.
  \<^verbatim>\<open>typ srflx 999.999.999.999\<close> gives the address \<^verbatim>\<open>999.999.999.999\<close>.
\<close>

theorem classify_accepts_any_dotted_quad:
  "(digit_group g1 \<and> digit_group g2 \<and> digit_group g3 \<and> digit_group g4 \<and>
    (\<forall>c \<in> set pre. \<not> is_digit c) \<and> (post = [] \<or> \<not> is_digit (hd post)) \<and>
    has_srflx_marker (pre @ g1 @ ''.'' @ g2 @ ''.'' @ g3 @ ''.'' @ g4 @ post) \<longrightarrow>
      classify (pre @ g1 @ ''.'' @ g2 @ ''.'' @ g3 @ ''.'' @ g4 @ post) =
        Some (g1 @ ''.'' @ g2 @ ''.'' @ g3 @ ''.'' @ g4)) \<and>
   classify ''typ srflx 999.999.999.999'' = Some ''999.999.999.999''"
proof (intro conjI impI)
  assume "digit_group g1 \<and> digit_group g2 \<and> digit_group g3 \<and> digit_group g4 \<and>
    (\<forall>c \<in> set pre. \<not> is_digit c) \<and> (post = [] \<or> \<not> is_digit (hd post)) \<and>
    has_srflx_marker (pre @ g1 @ ''.'' @ g2 @ ''.'' @ g3 @ ''.'' @ g4 @ post)"
  then show "classify (pre @ g1 @ ''.'' @ g2 @ ''.'' @ g3 @ ''.'' @ g4 @ post) =
        Some (g1 @ ''.'' @ g2 @ ''.'' @ g3 @ ''.'' @ g4)"
    by (intro classify_dotted_quad) simp_all
next
  show "classify ''typ srflx 999.999.999.999'' = Some ''999.999.999.999''"
    by (rule classify_999)
qed

theorem classify_accepts_any_dotted_quad_witness:
  "(digit_group ''999'' \<and>
    has_srflx_marker (''typ srflx '' @ ''999'' @ ''.'' @ ''999'' @ ''.'' @ ''999'' @ ''.'' @ ''999'' @ [])) \<and>
   classify (''typ srflx '' @ ''999'' @ ''.'' @ ''999'' @ ''.'' @ ''999'' @ ''.'' @ ''999'' @ []) =
     Some (''999'' @ ''.'' @ ''999'' @ ''.'' @ ''999'' @ ''.'' @ ''999'')"
proof -
  have g: "digit_group ''999''"
    by (simp add: digit_group_def is_digit_def)
  have p: "\<forall>c \<in> set ''typ srflx ''. \<not> is_digit c"
    by (simp add: is_digit_def)
  have "regex_match typ_regex_at
      (''typ srflx '' @ ''999'' @ ''.'' @ ''999'' @ ''.'' @ ''999'' @ ''.'' @ ''999'' @ []) \<noteq> None"
    by (simp add: typ_regex_at_def seq_re_def lit_def one_of_def is_space_def)
  then have m: "has_srflx_marker
      (''typ srflx '' @ ''999'' @ ''.'' @ ''999'' @ ''.'' @ ''999'' @ ''.'' @ ''999'' @ [])"
    by (simp only: typ_match_iff_marker)
  from classify_accepts_any_dotted_quad
    [where ?g1.0 = "''999''" and ?g2.0 = "''999''" and ?g3.0 = "''999''" and ?g4.0 = "''999''"
       and pre = "''typ srflx ''" and post = "[]"] g p m
  show ?thesis
    by blast
qed

end
